theory Spec2Isabelle
  imports Main "HOL-Library.Sublist"
begin

section \<open>JavaScript strings\<close>

text \<open>
  A JavaScript string is modelled as a list of 8-bit characters (code units below 256).
  The functions of this section are the string operations and regular expressions that the
  Radicale server (\<^verbatim>\<open>src/unnamed/part_001\<close>) applies, each written as the scan the engine performs.
\<close>

abbreviation CR :: char where "CR \<equiv> CHR 0x0D"
abbreviation LF :: char where "LF \<equiv> CHR 0x0A"

definition upper_letters :: string where
  "upper_letters = ''ABCDEFGHIJKLMNOPQRSTUVWXYZ'' @
     [CHR 0xC0, CHR 0xC1, CHR 0xC2, CHR 0xC3, CHR 0xC4, CHR 0xC5, CHR 0xC6, CHR 0xC7,
      CHR 0xC8, CHR 0xC9, CHR 0xCA, CHR 0xCB, CHR 0xCC, CHR 0xCD, CHR 0xCE, CHR 0xCF,
      CHR 0xD0, CHR 0xD1, CHR 0xD2, CHR 0xD3, CHR 0xD4, CHR 0xD5, CHR 0xD6,
      CHR 0xD8, CHR 0xD9, CHR 0xDA, CHR 0xDB, CHR 0xDC, CHR 0xDD, CHR 0xDE]"

definition lower_letters :: string where
  "lower_letters = ''abcdefghijklmnopqrstuvwxyz'' @
     [CHR 0xE0, CHR 0xE1, CHR 0xE2, CHR 0xE3, CHR 0xE4, CHR 0xE5, CHR 0xE6, CHR 0xE7,
      CHR 0xE8, CHR 0xE9, CHR 0xEA, CHR 0xEB, CHR 0xEC, CHR 0xED, CHR 0xEE, CHR 0xEF,
      CHR 0xF0, CHR 0xF1, CHR 0xF2, CHR 0xF3, CHR 0xF4, CHR 0xF5, CHR 0xF6,
      CHR 0xF8, CHR 0xF9, CHR 0xFA, CHR 0xFB, CHR 0xFC, CHR 0xFD, CHR 0xFE]"

text \<open>\<^verbatim>\<open>String.prototype.toLowerCase\<close> on code units below 256: the ASCII and the Latin-1 capitals.\<close>

definition toLowerCase_char :: "char \<Rightarrow> char" where
  "toLowerCase_char c =
     (case map_of (zip upper_letters lower_letters) c of Some d \<Rightarrow> d | None \<Rightarrow> c)"

definition toLowerCase :: "string \<Rightarrow> string" where
  "toLowerCase s = map toLowerCase_char s"

text \<open>
  \<^verbatim>\<open>String.prototype.toUpperCase\<close> on code units below 256. The sharp s becomes \<^verbatim>\<open>SS\<close>; the micro
  sign and the y with diaeresis have capitals above 255, which no 8-bit string holds: they
  are left as they are, and like their capitals they differ from every ASCII letter.
\<close>

definition toUpperCase_char :: "char \<Rightarrow> string" where
  "toUpperCase_char c =
     (if c = CHR 0xDF then ''SS''
      else case map_of (zip lower_letters upper_letters) c of Some d \<Rightarrow> [d] | None \<Rightarrow> [c])"

definition toUpperCase :: "string \<Rightarrow> string" where
  "toUpperCase s = concat (map toUpperCase_char s)"

text \<open>The character classes \<^verbatim>\<open>[a-z0-9]\<close> and \<^verbatim>\<open>\d\<close>.\<close>

definition is_az09 :: "char \<Rightarrow> bool" where
  "is_az09 c = (c \<in> set ''abcdefghijklmnopqrstuvwxyz0123456789'')"

definition is_digit :: "char \<Rightarrow> bool" where
  "is_digit c = (c \<in> set ''0123456789'')"

text \<open>\<^verbatim>\<open>Array.prototype.join\<close>.\<close>

fun join :: "string \<Rightarrow> string list \<Rightarrow> string" where
  "join sep [] = []"
| "join sep [x] = x"
| "join sep (x # y # ys) = x @ sep @ join sep (y # ys)"

text \<open>\<^verbatim>\<open>s.split(";")\<close> and \<^verbatim>\<open>s.split(/\r?\n/)\<close>: the pieces between the separators, at least one piece.\<close>

fun split_char :: "char \<Rightarrow> string \<Rightarrow> string list" where
  "split_char d [] = [[]]"
| "split_char d (c # cs) =
     (if c = d then [] # split_char d cs
      else case split_char d cs of l # ls \<Rightarrow> (c # l) # ls | [] \<Rightarrow> [[c]])"

fun split_lines :: "string \<Rightarrow> string list" where
  "split_lines [] = [[]]"
| "split_lines [c] = (if c = LF then [[], []] else [[c]])"
| "split_lines (c # d # cs) =
     (if c = LF then [] # split_lines (d # cs)
      else if c = CR \<and> d = LF then [] # split_lines cs
      else case split_lines (d # cs) of l # ls \<Rightarrow> (c # l) # ls | [] \<Rightarrow> [[c]])"

section \<open>Collection creation: the URL path segment\<close>

text \<open>
  \<^verbatim>\<open>.replace(/[^a-z0-9]+/g, "-")\<close>: at a character outside \<^verbatim>\<open>[a-z0-9]\<close> the match takes the whole
  run of such characters and one hyphen replaces it.
\<close>

function replace_runs :: "string \<Rightarrow> string" where
  "replace_runs [] = []"
| "replace_runs (c # cs) =
     (if is_az09 c then c # replace_runs cs
      else CHR ''-'' # replace_runs (dropWhile (\<lambda>x. \<not> is_az09 x) cs))"
  by pat_completeness auto
termination
  by (relation "measure length") (auto simp: le_imp_less_Suc length_dropWhile_le)

text \<open>
  \<^verbatim>\<open>.replace(/(^-|-$)/g, "")\<close>: one match at the start when the first character is a hyphen, and
  one at the end when the last remaining character is a hyphen.
\<close>

definition strip_ends :: "string \<Rightarrow> string" where
  "strip_ends s =
     (let s1 = (case s of [] \<Rightarrow> [] | c # cs \<Rightarrow> if c = CHR ''-'' then cs else s)
      in if s1 \<noteq> [] \<and> last s1 = CHR ''-'' then butlast s1 else s1)"

text \<open>The \<^verbatim>\<open>slug\<close> of \<^verbatim>\<open>radicale_create_calendar\<close> and of \<^verbatim>\<open>radicale_create_address_book\<close>.\<close>

definition slug :: "string \<Rightarrow> string" where
  "slug name = strip_ends (replace_runs (toLowerCase name))"

text \<open>
  The collection URLs: the server URL and the user name come from the environment
  (\<^verbatim>\<open>RADICALE_URL\<close>, \<^verbatim>\<open>RADICALE_USERNAME\<close>) and are parameters here.
\<close>

definition calUrl :: "string \<Rightarrow> string \<Rightarrow> string \<Rightarrow> string" where
  "calUrl radicale_url radicale_username name =
     radicale_url @ ''/'' @ radicale_username @ ''/'' @ slug name @ ''/''"

definition bookUrl :: "string \<Rightarrow> string \<Rightarrow> string \<Rightarrow> string" where
  "bookUrl radicale_url radicale_username name =
     radicale_url @ ''/'' @ radicale_username @ ''/'' @ slug name @ ''/''"

text \<open>
  The derivation in the words of the specification: lowercase the name, keep one hyphen
  for each run of non-alphanumeric characters, trim all leading and trailing hyphens.
\<close>

fun collapse_runs :: "string \<Rightarrow> string" where
  "collapse_runs [] = []"
| "collapse_runs [c] = (if is_az09 c then [c] else ''-'')"
| "collapse_runs (c # d # cs) =
     (if is_az09 c then c # collapse_runs (d # cs)
      else if is_az09 d then CHR ''-'' # collapse_runs (d # cs)
      else collapse_runs (d # cs))"

definition trim_hyphens :: "string \<Rightarrow> string" where
  "trim_hyphens s =
     rev (dropWhile (\<lambda>c. c = CHR ''-'') (rev (dropWhile (\<lambda>c. c = CHR ''-'') s)))"

definition path_segment_spec :: "string \<Rightarrow> string" where
  "path_segment_spec name = trim_hyphens (collapse_runs (toLowerCase name))"

text \<open>Two neighbours in a string that are not both hyphens.\<close>

definition hyphen_free_pair :: "char \<Rightarrow> char \<Rightarrow> bool" where
  "hyphen_free_pair a b = (\<not> (a = CHR ''-'' \<and> b = CHR ''-''))"

section \<open>Errors and dates\<close>

text \<open>The exceptions the modelled code can throw; \<open>Error\<close> carries the message of \<^verbatim>\<open>new Error(...)\<close>.\<close>

datatype error = RangeError | TypeError | Error string

text \<open>
  A \<^verbatim>\<open>Date\<close> object is its time value: \<open>Some t\<close> with \<open>t\<close> the milliseconds since the
  epoch, or \<open>None\<close> for an invalid date. \<open>civil_from_days\<close> gives the year, month and day of
  a day number (days since 1970-01-01) in the proleptic Gregorian calendar, which is what
  \<^verbatim>\<open>YearFromTime\<close>, \<^verbatim>\<open>MonthFromTime\<close> and \<^verbatim>\<open>DateFromTime\<close> compute.
\<close>

definition civil_from_days :: "int \<Rightarrow> int \<times> int \<times> int" where
  "civil_from_days z =
     (let z1 = z + 719468;
          era = z1 div 146097;
          doe = z1 mod 146097;
          yoe = (doe - doe div 1460 + doe div 36524 - doe div 146096) div 365;
          doy = doe - (365 * yoe + yoe div 4 - yoe div 100);
          mp = (5 * doy + 2) div 153;
          d = doy - (153 * mp + 2) div 5 + 1;
          m = (if mp < 10 then mp + 3 else mp - 9);
          y = yoe + era * 400
      in (if m \<le> 2 then y + 1 else y, m, d))"

definition digit_char :: "int \<Rightarrow> char" where
  "digit_char n = ''0123456789'' ! nat (n mod 10)"

definition pad2 :: "int \<Rightarrow> string" where
  "pad2 n = [digit_char (n div 10), digit_char n]"

definition pad3 :: "int \<Rightarrow> string" where
  "pad3 n = [digit_char (n div 100), digit_char (n div 10), digit_char n]"

definition pad4 :: "int \<Rightarrow> string" where
  "pad4 n = [digit_char (n div 1000), digit_char (n div 100), digit_char (n div 10), digit_char n]"

definition pad6 :: "int \<Rightarrow> string" where
  "pad6 n = [digit_char (n div 100000), digit_char (n div 10000)] @ pad4 n"

text \<open>
  \<^verbatim>\<open>Date.prototype.toISOString\<close> of a valid time value: \<^verbatim>\<open>YYYY-MM-DDTHH:mm:ss.sssZ\<close>, the year
  with a sign and six digits outside 0..9999.
\<close>

definition toISOString :: "int \<Rightarrow> string" where
  "toISOString t =
     (let (y, m, d) = civil_from_days (t div 86400000);
          r = t mod 86400000;
          year = (if 0 \<le> y \<and> y \<le> 9999 then pad4 y
                  else (if y < 0 then ''-'' else ''+'') @ pad6 (abs y))
      in year @ ''-'' @ pad2 m @ ''-'' @ pad2 d @ ''T'' @ pad2 (r div 3600000) @ '':'' @
         pad2 (r div 60000 mod 60) @ '':'' @ pad2 (r div 1000 mod 60) @ ''.'' @
         pad3 (r mod 1000) @ ''Z'')"

text \<open>
  \<^verbatim>\<open>new Date(iso)\<close>. Parsing a string is \<^verbatim>\<open>Date.parse\<close>, a built-in whose result outside the
  ECMAScript date-time format depends on the engine and on the local time zone: it is the
  parameter \<open>dp\<close> of everything below (\<open>None\<close> is the invalid date). \<^verbatim>\<open>new Date(null)\<close> is the
  epoch; \<open>None\<close> as the argument stands for \<^verbatim>\<open>null\<close>.
\<close>

definition Date_new :: "(string \<Rightarrow> int option) \<Rightarrow> string option \<Rightarrow> int option" where
  "Date_new dp v = (case v of None \<Rightarrow> Some 0 | Some s \<Rightarrow> dp s)"

text \<open>\<^verbatim>\<open>.replace(/\.\d{3}/, "")\<close>: the first full stop that three digits follow goes, with them.\<close>

fun strip_millis :: "string \<Rightarrow> string" where
  "strip_millis [] = []"
| "strip_millis (c # cs) =
     (if c = CHR ''.'' \<and> 3 \<le> length cs \<and> list_all is_digit (take 3 cs) then drop 3 cs
      else c # strip_millis cs)"

text \<open>\<^verbatim>\<open>isoToIcal\<close>: \<^verbatim>\<open>toISOString\<close> throws a RangeError on an invalid date.\<close>

definition isoToIcal :: "(string \<Rightarrow> int option) \<Rightarrow> string option \<Rightarrow> error + string" where
  "isoToIcal dp v =
     (case Date_new dp v of
        None \<Rightarrow> Inl RangeError
      | Some t \<Rightarrow>
          Inr (strip_millis (filter (\<lambda>c. c \<noteq> CHR ''-'' \<and> c \<noteq> CHR '':'') (toISOString t))))"

text \<open>\<^verbatim>\<open>isoToIcalDate\<close>: \<^verbatim>\<open>null.replace\<close> is a TypeError.\<close>

definition isoToIcalDate :: "string option \<Rightarrow> error + string" where
  "isoToIcalDate v =
     (case v of
        None \<Rightarrow> Inl TypeError
      | Some s \<Rightarrow> Inr (take 8 (filter (\<lambda>c. c \<noteq> CHR ''-'') s)))"

text \<open>
  The value of a date property of a parsed component, as \<^verbatim>\<open>icalDateToIso\<close> tells them apart:
  nothing (\<^verbatim>\<open>undefined\<close>, \<^verbatim>\<open>null\<close>), a string, a \<^verbatim>\<open>Date\<close>, or another object, of which only the
  text that its \<^verbatim>\<open>toISOString()\<close> (or else \<^verbatim>\<open>String\<close>) gives matters.
\<close>

datatype parsed_date = Absent | DateText string | DateObj "int option" | DateLike string

definition icalDateToIso :: "parsed_date \<Rightarrow> error + string option" where
  "icalDateToIso d =
     (case d of
        Absent \<Rightarrow> Inr None
      | DateText s \<Rightarrow> Inr (if s = [] then None else Some s)
      | DateObj None \<Rightarrow> Inl RangeError
      | DateObj (Some t) \<Rightarrow> Inr (Some (toISOString t))
      | DateLike s \<Rightarrow> Inr (Some s))"

text \<open>
  The examples need \<^verbatim>\<open>Date.parse\<close> at five strings. \<open>known_dates\<close> lists them with their time
  values, and \<open>Date_parse_known\<close> is the parameter \<open>dp\<close> of the examples: it gives the time
  value of a listed string and is left unspecified at every other string.
\<close>

definition known_dates :: "(string \<times> int) list" where
  "known_dates =
     [(''2026-03-01T09:00:00Z'', 1772355600000),
      (''2026-03-01T09:00:00.500Z'', 1772355600500),
      (''2026-03-01T10:30:00Z'', 1772361000000),
      (''2026-03-01T00:00:00.000Z'', 1772323200000),
      (''2026-03-02T00:00:00.000Z'', 1772409600000)]"

definition Date_parse_known :: "string \<Rightarrow> int option" where
  "Date_parse_known s = (case map_of known_dates s of Some t \<Rightarrow> Some t | None \<Rightarrow> undefined)"

section \<open>iCalendar: encoding an event\<close>

text \<open>
  Optional strings: \<open>None\<close> is \<^verbatim>\<open>undefined\<close> (or \<^verbatim>\<open>null\<close>). \<open>truthy\<close> is the test of \<^verbatim>\<open>if (x)\<close> and
  of \<^verbatim>\<open>x || y\<close>, \<open>or_empty\<close> is \<^verbatim>\<open>x || ""\<close>, and \<open>template\<close> is the text of \<^verbatim>\<open>${x}\<close>.
\<close>

definition truthy :: "string option \<Rightarrow> bool" where
  "truthy v = (case v of None \<Rightarrow> False | Some s \<Rightarrow> s \<noteq> [])"

definition or_empty :: "string option \<Rightarrow> string" where
  "or_empty v = (case v of None \<Rightarrow> [] | Some s \<Rightarrow> s)"

definition template :: "string option \<Rightarrow> string" where
  "template v = (case v of None \<Rightarrow> ''undefined'' | Some s \<Rightarrow> s)"

text \<open>\<^verbatim>\<open>if (x) lines.push(`KEY:${x}`)\<close>.\<close>

definition push_if :: "string \<Rightarrow> string option \<Rightarrow> string list" where
  "push_if key v = (if truthy v then [key @ or_empty v] else [])"

text \<open>
  A text property of an event or a todo is a string when the caller supplies it. What is
  decoded is what the parser reports: a string, or for a property line with parameters the
  object \<^verbatim>\<open>{params, val}\<close>, here \<open>Obj params val\<close>. The same four operations on such a value,
  \<open>None\<close> being \<^verbatim>\<open>undefined\<close>: an object is truthy, and its text in a template is
  \<^verbatim>\<open>[object Object]\<close>.
\<close>

datatype text_value = Str string | Obj "(string \<times> string) list" string

definition truthy_value :: "text_value option \<Rightarrow> bool" where
  "truthy_value v =
     (case v of None \<Rightarrow> False | Some (Str s) \<Rightarrow> s \<noteq> [] | Some (Obj ps w) \<Rightarrow> True)"

definition or_empty_value :: "text_value option \<Rightarrow> text_value" where
  "or_empty_value v =
     (case v of None \<Rightarrow> Str [] | Some (Str s) \<Rightarrow> Str s | Some (Obj ps w) \<Rightarrow> Obj ps w)"

definition template_value :: "text_value option \<Rightarrow> string" where
  "template_value v =
     (case v of
        None \<Rightarrow> ''undefined''
      | Some (Str s) \<Rightarrow> s
      | Some (Obj ps w) \<Rightarrow> ''[object Object]'')"

definition push_value :: "string \<Rightarrow> text_value option \<Rightarrow> string list" where
  "push_value key v = (if truthy_value v then [key @ template_value v] else [])"

text \<open>
  The argument of \<^verbatim>\<open>buildVEvent\<close>. \<open>ev_dtstart\<close> is a string or \<^verbatim>\<open>null\<close> (\<open>None\<close>): creation
  requires the string, and an update passes on what was decoded. \<open>ev_allDay\<close> is a boolean
  or \<^verbatim>\<open>undefined\<close>.
\<close>

record vevent =
  ev_uid :: "text_value option"
  ev_summary :: "text_value option"
  ev_dtstart :: "string option"
  ev_dtend :: "string option"
  ev_description :: "text_value option"
  ev_location :: "text_value option"
  ev_allDay :: "bool option"

text \<open>
  The token \<^verbatim>\<open>YYYYMMDDTHHMMSSZ\<close> of a time value. In \<^verbatim>\<open>buildVEvent\<close> the stamp is
  \<^verbatim>\<open>isoToIcal(new Date().toISOString())\<close>: the clock reading \<open>clock\<close> is a parameter, and
  \<^verbatim>\<open>Date.parse\<close> of \<^verbatim>\<open>toISOString\<close> of a time value is that time value.
\<close>

definition ical_stamp :: "int \<Rightarrow> string" where
  "ical_stamp t = strip_millis (filter (\<lambda>c. c \<noteq> CHR ''-'' \<and> c \<noteq> CHR '':'') (toISOString t))"

text \<open>The array \<^verbatim>\<open>lines\<close> of \<^verbatim>\<open>buildVEvent\<close>, or the exception a date helper throws.\<close>

definition vevent_lines :: "(string \<Rightarrow> int option) \<Rightarrow> int \<Rightarrow> vevent \<Rightarrow> error + string list" where
  "vevent_lines dp clock r =
     (let head = [''BEGIN:VCALENDAR'', ''VERSION:2.0'', ''PRODID:-//Radicale MCP//EN'',
                  ''BEGIN:VEVENT'', ''UID:'' @ template_value (ev_uid r), ''DTSTAMP:'' @ ical_stamp clock];
          rest = push_value ''SUMMARY:'' (ev_summary r) @ push_value ''DESCRIPTION:'' (ev_description r) @
                 push_value ''LOCATION:'' (ev_location r) @ [''END:VEVENT'', ''END:VCALENDAR'']
      in if ev_allDay r = Some True then
           (case isoToIcalDate (ev_dtstart r) of
              Inl e \<Rightarrow> Inl e
            | Inr s \<Rightarrow>
                if truthy (ev_dtend r) then
                  (case isoToIcalDate (ev_dtend r) of
                     Inl e \<Rightarrow> Inl e
                   | Inr t \<Rightarrow>
                       Inr (head @ [''DTSTART;VALUE=DATE:'' @ s, ''DTEND;VALUE=DATE:'' @ t] @ rest))
                else Inr (head @ [''DTSTART;VALUE=DATE:'' @ s] @ rest))
         else
           (case isoToIcal dp (ev_dtstart r) of
              Inl e \<Rightarrow> Inl e
            | Inr s \<Rightarrow>
                if truthy (ev_dtend r) then
                  (case isoToIcal dp (ev_dtend r) of
                     Inl e \<Rightarrow> Inl e
                   | Inr t \<Rightarrow> Inr (head @ [''DTSTART:'' @ s, ''DTEND:'' @ t] @ rest))
                else Inr (head @ [''DTSTART:'' @ s] @ rest)))"

definition buildVEvent :: "(string \<Rightarrow> int option) \<Rightarrow> int \<Rightarrow> vevent \<Rightarrow> error + string" where
  "buildVEvent dp clock r =
     (case vevent_lines dp clock r of Inl e \<Rightarrow> Inl e | Inr ls \<Rightarrow> Inr (join [CR, LF] ls))"

section \<open>iCalendar: decoding\<close>

text \<open>
  \<^verbatim>\<open>ical.sync.parseICS\<close> belongs to the library node-ical, not to this repository: the parser
  is the parameter \<open>parseICS\<close>, from the text to the entries of the object it returns (key and
  component, in the order of \<^verbatim>\<open>Object.entries\<close>) or to the exception it throws. A component
  carries what \<^verbatim>\<open>parseIcalObjects\<close> reads from it; a text property is a string, an object
  \<^verbatim>\<open>{params, val}\<close> or \<^verbatim>\<open>undefined\<close>, and the priority is passed on untouched, so its type is
  left open.
\<close>

record 'p component =
  comp_type :: string
  comp_uid :: "text_value option"
  comp_summary :: "text_value option"
  comp_description :: "text_value option"
  comp_start :: parsed_date
  comp_end :: parsed_date
  comp_location :: "text_value option"
  comp_status :: "text_value option"
  comp_priority :: 'p
  comp_completed :: parsed_date
  comp_due :: parsed_date

text \<open>The record that \<^verbatim>\<open>parseIcalObjects\<close> pushes; a date is a string or \<^verbatim>\<open>null\<close> (\<open>None\<close>).\<close>

record 'p ical_object =
  o_uid :: "text_value option"
  o_summary :: text_value
  o_description :: text_value
  o_start :: "string option"
  o_end :: "string option"
  o_location :: text_value
  o_status :: text_value
  o_priority :: 'p
  o_completed :: "string option"
  o_due :: "string option"

definition to_object :: "'p component \<Rightarrow> error + 'p ical_object" where
  "to_object cmp =
     (case icalDateToIso (comp_start cmp) of Inl e \<Rightarrow> Inl e | Inr s \<Rightarrow>
      case icalDateToIso (comp_end cmp) of Inl e \<Rightarrow> Inl e | Inr en \<Rightarrow>
      case icalDateToIso (comp_completed cmp) of Inl e \<Rightarrow> Inl e | Inr co \<Rightarrow>
      case icalDateToIso (comp_due cmp) of Inl e \<Rightarrow> Inl e | Inr du \<Rightarrow>
        Inr \<lparr>o_uid = comp_uid cmp, o_summary = or_empty_value (comp_summary cmp),
             o_description = or_empty_value (comp_description cmp), o_start = s, o_end = en,
             o_location = or_empty_value (comp_location cmp), o_status = or_empty_value (comp_status cmp),
             o_priority = comp_priority cmp, o_completed = co, o_due = du\<rparr>)"

text \<open>The loop of \<^verbatim>\<open>parseIcalObjects\<close> over the components.\<close>

fun push_results :: "string \<Rightarrow> 'p component list \<Rightarrow> error + 'p ical_object list" where
  "push_results ty [] = Inr []"
| "push_results ty (cmp # cmps) =
     (if (ty = ''VEVENT'' \<and> comp_type cmp = ''VEVENT'') \<or>
         (ty = ''VTODO'' \<and> comp_type cmp = ''VTODO'')
      then (case to_object cmp of
              Inl e \<Rightarrow> Inl e
            | Inr r \<Rightarrow> (case push_results ty cmps of Inl e \<Rightarrow> Inl e | Inr rs \<Rightarrow> Inr (r # rs)))
      else push_results ty cmps)"

definition parseIcalObjects ::
  "(string \<Rightarrow> error + (string \<times> 'p component) list) \<Rightarrow> string \<Rightarrow> string \<Rightarrow> error + 'p ical_object list"
where
  "parseIcalObjects parseICS data ty =
     (case parseICS data of Inl e \<Rightarrow> Inl e | Inr parsed \<Rightarrow> push_results ty (map snd parsed))"

text \<open>A parser that reports the given entries for every text: it states examples whose input
  is what the library reports.\<close>

definition reports :: "(string \<times> 'p component) list \<Rightarrow> string \<Rightarrow> error + (string \<times> 'p component) list" where
  "reports entries data = Inr entries"

section \<open>The tools on events and todos\<close>

text \<open>An object as the DAV client fetches it; the fetched list is an input of the handlers.\<close>

record dav_object =
  obj_url :: string
  obj_etag :: "string option"
  obj_data :: string

text \<open>The optional arguments of \<^verbatim>\<open>radicale_update_event\<close>: \<open>None\<close> is an argument left out.\<close>

record event_update =
  a_summary :: "string option"
  a_start :: "string option"
  a_end :: "string option"
  a_description :: "string option"
  a_location :: "string option"
  a_all_day :: "bool option"

text \<open>The object \<^verbatim>\<open>merged\<close> of \<^verbatim>\<open>radicale_update_event\<close>.\<close>

definition merge_event :: "event_update \<Rightarrow> 'p ical_object \<Rightarrow> vevent" where
  "merge_event a existing =
     \<lparr>ev_uid = o_uid existing,
      ev_summary = Some (case a_summary a of Some v \<Rightarrow> Str v | None \<Rightarrow> o_summary existing),
      ev_dtstart = (case a_start a of Some v \<Rightarrow> Some v | None \<Rightarrow> o_start existing),
      ev_dtend = (case a_end a of Some v \<Rightarrow> Some v | None \<Rightarrow> o_end existing),
      ev_description = Some (case a_description a of Some v \<Rightarrow> Str v | None \<Rightarrow> o_description existing),
      ev_location = Some (case a_location a of Some v \<Rightarrow> Str v | None \<Rightarrow> o_location existing),
      ev_allDay = Some (case a_all_day a of Some b \<Rightarrow> b | None \<Rightarrow> False)\<rparr>"

text \<open>
  \<^verbatim>\<open>radicale_update_event\<close> from the fetched objects to the merged record and the calendar
  object handed to \<^verbatim>\<open>updateCalendarObject\<close>.
\<close>

definition radicale_update_event ::
  "(string \<Rightarrow> error + (string \<times> 'p component) list) \<Rightarrow> (string \<Rightarrow> int option) \<Rightarrow> int \<Rightarrow>
   string \<Rightarrow> event_update \<Rightarrow> dav_object list \<Rightarrow> error + vevent \<times> dav_object"
where
  "radicale_update_event parseICS dp clock event_url a objects =
     (case objects of
        [] \<Rightarrow> Inl (Error ''Event not found'')
      | ob # _ \<Rightarrow>
          (case parseIcalObjects parseICS (obj_data ob) ''VEVENT'' of
             Inl e \<Rightarrow> Inl e
           | Inr [] \<Rightarrow> Inl (Error ''No VEVENT found in object'')
           | Inr (existing # _) \<Rightarrow>
               (let merged = merge_event a existing in
                case buildVEvent dp clock merged of
                  Inl e \<Rightarrow> Inl e
                | Inr data \<Rightarrow>
                    Inr (merged, \<lparr>obj_url = event_url, obj_etag = obj_etag ob, obj_data = data\<rparr>))))"

text \<open>The optional arguments of \<^verbatim>\<open>radicale_update_todo\<close> and its object \<^verbatim>\<open>merged\<close>.\<close>

record 'p todo_update =
  t_summary :: "string option"
  t_description :: "string option"
  t_due :: "string option"
  t_status :: "string option"
  t_priority :: "'p option"

record 'p vtodo =
  td_uid :: "text_value option"
  td_summary :: text_value
  td_description :: text_value
  td_due :: "string option"
  td_priority :: 'p
  td_status :: text_value
  td_completed :: "string option"

definition merge_todo :: "int \<Rightarrow> 'p todo_update \<Rightarrow> 'p ical_object \<Rightarrow> 'p vtodo" where
  "merge_todo clock a existing =
     (let newStatus = (case t_status a of Some v \<Rightarrow> Str v | None \<Rightarrow> o_status existing) in
      \<lparr>td_uid = o_uid existing,
       td_summary = (case t_summary a of Some v \<Rightarrow> Str v | None \<Rightarrow> o_summary existing),
       td_description = (case t_description a of Some v \<Rightarrow> Str v | None \<Rightarrow> o_description existing),
       td_due = (case t_due a of Some v \<Rightarrow> Some v | None \<Rightarrow> o_due existing),
       td_priority = (case t_priority a of Some v \<Rightarrow> v | None \<Rightarrow> o_priority existing),
       td_status = newStatus,
       td_completed = (if newStatus = Str ''COMPLETED'' then Some (toISOString clock) else None)\<rparr>)"

text \<open>
  \<^verbatim>\<open>radicale_update_todo\<close> from the fetched objects to the merged record, which \<^verbatim>\<open>buildVTodo\<close>
  then encodes.
\<close>

definition radicale_update_todo ::
  "(string \<Rightarrow> error + (string \<times> 'p component) list) \<Rightarrow> int \<Rightarrow> 'p todo_update \<Rightarrow>
   dav_object list \<Rightarrow> error + 'p vtodo"
where
  "radicale_update_todo parseICS clock a objects =
     (case objects of
        [] \<Rightarrow> Inl (Error ''Todo not found'')
      | ob # _ \<Rightarrow>
          (case parseIcalObjects parseICS (obj_data ob) ''VTODO'' of
             Inl e \<Rightarrow> Inl e
           | Inr [] \<Rightarrow> Inl (Error ''No VTODO found in object'')
           | Inr (existing # _) \<Rightarrow> Inr (merge_todo clock a existing)))"

text \<open>\<^verbatim>\<open>summariseCalObject\<close>: the decoded record with the URL and the etag of its object.\<close>

record 'p listed =
  l_item :: "'p ical_object"
  l_url :: string
  l_etag :: "string option"

definition summariseCalObject :: "'p ical_object \<Rightarrow> string \<Rightarrow> string option \<Rightarrow> 'p listed" where
  "summariseCalObject obj u e = \<lparr>l_item = obj, l_url = u, l_etag = e\<rparr>"

text \<open>The \<^verbatim>\<open>.map(...)\<close> of \<^verbatim>\<open>radicale_list_todos\<close> over the fetched objects, then \<^verbatim>\<open>.flat()\<close>.\<close>

fun map_todos ::
  "(string \<Rightarrow> error + (string \<times> 'p component) list) \<Rightarrow> dav_object list \<Rightarrow> error + 'p listed list list"
where
  "map_todos parseICS [] = Inr []"
| "map_todos parseICS (ob # obs) =
     (case parseIcalObjects parseICS (obj_data ob) ''VTODO'' of
        Inl e \<Rightarrow> Inl e
      | Inr todos \<Rightarrow>
          (case map_todos parseICS obs of
             Inl e \<Rightarrow> Inl e
           | Inr rest \<Rightarrow>
               Inr (map (\<lambda>t. summariseCalObject t (obj_url ob) (obj_etag ob)) todos # rest)))"

definition radicale_list_todos ::
  "(string \<Rightarrow> error + (string \<times> 'p component) list) \<Rightarrow> bool option \<Rightarrow> dav_object list \<Rightarrow>
   error + 'p listed list"
where
  "radicale_list_todos parseICS show_completed objects =
     (case map_todos parseICS objects of
        Inl e \<Rightarrow> Inl e
      | Inr mapped \<Rightarrow>
          Inr (filter (\<lambda>t. show_completed = Some True \<or> o_status (l_item t) \<noteq> Str ''COMPLETED'')
                 (filter (\<lambda>t. truthy_value (o_uid (l_item t))) (concat mapped))))"

section \<open>vCard\<close>

text \<open>A contact: the result of \<^verbatim>\<open>parseVCard\<close>, the \<^verbatim>\<open>merged\<close> object and the argument of
  \<^verbatim>\<open>buildVCard\<close>. \<open>None\<close> is a property that is not set.\<close>

record contact =
  vc_uid :: "string option"
  vc_full_name :: "string option"
  vc_first_name :: "string option"
  vc_last_name :: "string option"
  vc_email :: "string option"
  vc_phone :: "string option"
  vc_org :: "string option"
  vc_title :: "string option"
  vc_note :: "string option"

definition no_contact :: contact where
  "no_contact = \<lparr>vc_uid = None, vc_full_name = None, vc_first_name = None, vc_last_name = None,
     vc_email = None, vc_phone = None, vc_org = None, vc_title = None, vc_note = None\<rparr>"

text \<open>\<^verbatim>\<open>.replace(/\r\n /g, "")\<close>.\<close>

fun unfold_lines :: "string \<Rightarrow> string" where
  "unfold_lines [] = []"
| "unfold_lines [a] = [a]"
| "unfold_lines [a, b] = [a, b]"
| "unfold_lines (a # b # c # cs) =
     (if a = CR \<and> b = LF \<and> c = CHR '' '' then unfold_lines cs else a # unfold_lines (b # c # cs))"

text \<open>
  \<^verbatim>\<open>line.match(/^([^:;]+)(?:;[^:]*)?:(.*)$/)\<close>: the key is the longest prefix without colon and
  semicolon and is not empty; after a semicolon the parameters run to the first colon; the
  value is the rest of the line, and the dot matches no line terminator.
\<close>

definition match_line :: "string \<Rightarrow> (string \<times> string) option" where
  "match_line line =
     (let key = takeWhile (\<lambda>c. c \<noteq> CHR '':'' \<and> c \<noteq> CHR '';'') line;
          rest = dropWhile (\<lambda>c. c \<noteq> CHR '':'' \<and> c \<noteq> CHR '';'') line;
          after = (case rest of
                     [] \<Rightarrow> None
                   | c # cs \<Rightarrow>
                       if c = CHR '':'' then Some cs
                       else (case dropWhile (\<lambda>x. x \<noteq> CHR '':'') cs of
                               [] \<Rightarrow> None
                             | _ # v \<Rightarrow> Some v))
      in case after of
           None \<Rightarrow> None
         | Some v \<Rightarrow> if key = [] \<or> CR \<in> set v \<or> LF \<in> set v then None else Some (key, v))"

text \<open>\<^verbatim>\<open>parts[i] || ""\<close>.\<close>

definition part_or_empty :: "string list \<Rightarrow> nat \<Rightarrow> string" where
  "part_or_empty parts i = (if i < length parts then parts ! i else [])"

text \<open>The body of the loop of \<^verbatim>\<open>parseVCard\<close>.\<close>

definition process_line :: "contact \<Rightarrow> string \<Rightarrow> contact" where
  "process_line result line =
     (case match_line line of
        None \<Rightarrow> result
      | Some (k, val) \<Rightarrow>
          (let key = toUpperCase k;
               r1 = (if key = ''FN'' then result\<lparr>vc_full_name := Some val\<rparr> else result);
               r2 = (if key = ''N''
                     then r1\<lparr>vc_last_name := Some (part_or_empty (split_char (CHR '';'') val) 0),
                              vc_first_name := Some (part_or_empty (split_char (CHR '';'') val) 1)\<rparr>
                     else r1);
               r3 = (if key = ''EMAIL'' then r2\<lparr>vc_email := Some val\<rparr> else r2);
               r4 = (if key = ''TEL'' then r3\<lparr>vc_phone := Some val\<rparr> else r3);
               r5 = (if key = ''ORG'' then r4\<lparr>vc_org := Some val\<rparr> else r4);
               r6 = (if key = ''TITLE'' then r5\<lparr>vc_title := Some val\<rparr> else r5);
               r7 = (if key = ''NOTE'' then r6\<lparr>vc_note := Some val\<rparr> else r6)
           in if key = ''UID'' then r7\<lparr>vc_uid := Some val\<rparr> else r7))"

definition parseVCard :: "string \<Rightarrow> contact" where
  "parseVCard vcardStr = foldl process_line no_contact (split_lines (unfold_lines vcardStr))"

text \<open>The value after \<^verbatim>\<open>FN:\<close> in \<^verbatim>\<open>buildVCard\<close>:
  \<^verbatim>\<open>full_name || [first_name, last_name].filter(Boolean).join(" ") || "Unknown"\<close>.\<close>

definition FN_value :: "contact \<Rightarrow> string" where
  "FN_value c =
     (if truthy (vc_full_name c) then or_empty (vc_full_name c)
      else (let names = join '' '' (map or_empty (filter truthy [vc_first_name c, vc_last_name c]))
            in if names \<noteq> [] then names else ''Unknown''))"

definition vcard_lines :: "contact \<Rightarrow> string list" where
  "vcard_lines c =
     [''BEGIN:VCARD'', ''VERSION:3.0'', ''UID:'' @ template (vc_uid c), ''FN:'' @ FN_value c,
      ''N:'' @ or_empty (vc_last_name c) @ '';'' @ or_empty (vc_first_name c) @ '';;;''] @
     push_if ''EMAIL:'' (vc_email c) @ push_if ''TEL:'' (vc_phone c) @ push_if ''ORG:'' (vc_org c) @
     push_if ''TITLE:'' (vc_title c) @ push_if ''NOTE:'' (vc_note c) @ [''END:VCARD'']"

definition buildVCard :: "contact \<Rightarrow> string" where
  "buildVCard c = join [CR, LF] (vcard_lines c)"

text \<open>The optional arguments of \<^verbatim>\<open>radicale_update_contact\<close> and its object \<^verbatim>\<open>merged\<close>.\<close>

record contact_update =
  u_full_name :: "string option"
  u_first_name :: "string option"
  u_last_name :: "string option"
  u_email :: "string option"
  u_phone :: "string option"
  u_org :: "string option"
  u_title :: "string option"
  u_note :: "string option"

definition merge_contact :: "contact_update \<Rightarrow> contact \<Rightarrow> contact" where
  "merge_contact a existing =
     \<lparr>vc_uid = vc_uid existing,
      vc_full_name = (case u_full_name a of Some v \<Rightarrow> Some v | None \<Rightarrow> vc_full_name existing),
      vc_first_name = (case u_first_name a of Some v \<Rightarrow> Some v | None \<Rightarrow> vc_first_name existing),
      vc_last_name = (case u_last_name a of Some v \<Rightarrow> Some v | None \<Rightarrow> vc_last_name existing),
      vc_email = (case u_email a of Some v \<Rightarrow> Some v | None \<Rightarrow> vc_email existing),
      vc_phone = (case u_phone a of Some v \<Rightarrow> Some v | None \<Rightarrow> vc_phone existing),
      vc_org = (case u_org a of Some v \<Rightarrow> Some v | None \<Rightarrow> vc_org existing),
      vc_title = (case u_title a of Some v \<Rightarrow> Some v | None \<Rightarrow> vc_title existing),
      vc_note = (case u_note a of Some v \<Rightarrow> Some v | None \<Rightarrow> vc_note existing)\<rparr>"

text \<open>\<^verbatim>\<open>radicale_update_contact\<close> from the fetched cards to the merged record and the card
  handed to \<^verbatim>\<open>updateVCard\<close>.\<close>

definition radicale_update_contact ::
  "string \<Rightarrow> contact_update \<Rightarrow> dav_object list \<Rightarrow> error + contact \<times> dav_object"
where
  "radicale_update_contact contact_url a objects =
     (case objects of
        [] \<Rightarrow> Inl (Error ''Contact not found'')
      | ob # _ \<Rightarrow>
          (let merged = merge_contact a (parseVCard (obj_data ob)) in
           Inr (merged, \<lparr>obj_url = contact_url, obj_etag = obj_etag ob, obj_data = buildVCard merged\<rparr>)))"

section \<open>The specification's merge rule and the examples\<close>

text \<open>
  The merge rule in the words of the specification: the caller-supplied value if the
  field is present in the request, else the existing decoded value (\<open>overlay_opt\<close> where the
  existing value may itself be missing).
\<close>

definition overlay :: "'a option \<Rightarrow> 'a \<Rightarrow> 'a" where
  "overlay supplied existing = (case supplied of Some v \<Rightarrow> v | None \<Rightarrow> existing)"

definition overlay_opt :: "'a option \<Rightarrow> 'a option \<Rightarrow> 'a option" where
  "overlay_opt supplied existing = (case supplied of Some v \<Rightarrow> Some v | None \<Rightarrow> existing)"

text \<open>A clock reading, 2026-03-01T09:00:00.500Z.\<close>

definition clock0 :: int where
  "clock0 = 1772355600500"

text \<open>
  A stored todo: the component a parser reports for it and the fetched object; an update
  that sets the status alone.
\<close>

definition todo_component :: "int option component" where
  "todo_component =
     \<lparr>comp_type = ''VTODO'', comp_uid = Some (Str ''t1''), comp_summary = Some (Str ''Buy milk''),
      comp_description = None, comp_start = Absent, comp_end = Absent, comp_location = None,
      comp_status = Some (Str ''NEEDS-ACTION''), comp_priority = Some 5, comp_completed = Absent,
      comp_due = DateObj (Some 1772409600000)\<rparr>"

definition todo_object :: dav_object where
  "todo_object =
     \<lparr>obj_url = ''https://dav.example/u/cal/t1.ics'', obj_etag = Some ''e1'',
      obj_data = ''BEGIN:VCALENDAR''\<rparr>"

definition complete_todo :: "int option todo_update" where
  "complete_todo =
     \<lparr>t_summary = None, t_description = None, t_due = None, t_status = Some ''COMPLETED'',
      t_priority = None\<rparr>"

text \<open>The same todo as a parser reports it when the stored text has no UID line and the
  status COMPLETED.\<close>

definition nouid_component :: "int option component" where
  "nouid_component = todo_component\<lparr>comp_uid := None, comp_status := Some (Str ''COMPLETED'')\<rparr>"

text \<open>
  A stored all-day event: the record it was created from, its text, the fetched object,
  and the component that node-ical reports for the text on a machine in the UTC zone (a
  DATE value becomes a \<^verbatim>\<open>Date\<close> at local midnight); an update that sets the summary alone.
\<close>

definition allday_event :: vevent where
  "allday_event =
     \<lparr>ev_uid = Some (Str ''u1''), ev_summary = Some (Str ''Holiday''), ev_dtstart = Some ''2026-03-01'',
      ev_dtend = Some ''2026-03-02'', ev_description = None, ev_location = Some (Str ''Lisbon''),
      ev_allDay = Some True\<rparr>"

definition allday_text :: string where
  "allday_text = join [CR, LF]
     [''BEGIN:VCALENDAR'', ''VERSION:2.0'', ''PRODID:-//Radicale MCP//EN'', ''BEGIN:VEVENT'',
      ''UID:u1'', ''DTSTAMP:20260301T090000Z'', ''DTSTART;VALUE=DATE:20260301'',
      ''DTEND;VALUE=DATE:20260302'', ''SUMMARY:Holiday'', ''LOCATION:Lisbon'', ''END:VEVENT'',
      ''END:VCALENDAR'']"

definition allday_object :: dav_object where
  "allday_object =
     \<lparr>obj_url = ''https://dav.example/u/cal/u1.ics'', obj_etag = Some ''e7'',
      obj_data = allday_text\<rparr>"

definition allday_component :: "int option component" where
  "allday_component =
     \<lparr>comp_type = ''VEVENT'', comp_uid = Some (Str ''u1''), comp_summary = Some (Str ''Holiday''),
      comp_description = None, comp_start = DateObj (Some 1772323200000),
      comp_end = DateObj (Some 1772409600000), comp_location = Some (Str ''Lisbon''),
      comp_status = None, comp_priority = None, comp_completed = Absent, comp_due = Absent\<rparr>"

definition rename_only :: event_update where
  "rename_only =
     \<lparr>a_summary = Some ''Vacation'', a_start = None, a_end = None, a_description = None,
      a_location = None, a_all_day = None\<rparr>"

text \<open>
  The stored todo once it is completed (on 2026-01-01), and an update that sets the
  summary alone.
\<close>

definition done_component :: "int option component" where
  "done_component =
     todo_component\<lparr>comp_status := Some (Str ''COMPLETED''),
                     comp_completed := DateObj (Some 1767225600000)\<rparr>"

definition retitle_only :: "int option todo_update" where
  "retitle_only =
     \<lparr>t_summary = Some ''Buy oat milk'', t_description = None, t_due = None, t_status = None,
      t_priority = None\<rparr>"

text \<open>A stored contact, and an update that sets the phone number alone.\<close>

definition contact_text :: string where
  "contact_text = join [CR, LF]
     [''BEGIN:VCARD'', ''VERSION:3.0'', ''UID:c1'', ''FN:Ann Lee'', ''N:Lee;Ann;;;'',
      ''EMAIL:ann@example.org'', ''END:VCARD'']"

definition contact_object :: dav_object where
  "contact_object =
     \<lparr>obj_url = ''https://dav.example/u/book/c1.vcf'', obj_etag = Some ''e3'',
      obj_data = contact_text\<rparr>"

definition phone_only :: contact_update where
  "phone_only =
     \<lparr>u_full_name = None, u_first_name = None, u_last_name = None, u_email = None,
      u_phone = Some ''+351 555 0100'', u_org = None, u_title = None, u_note = None\<rparr>"

text \<open>
  The shape of a date in the extended ISO form: a string that begins \<^verbatim>\<open>YYYY-MM-DD\<close>, its eight
  digits, and a string that is such a date and nothing more.
\<close>

definition iso_date_prefix :: "string \<Rightarrow> bool" where
  "iso_date_prefix s =
     (10 \<le> length s \<and> list_all is_digit (take 4 s) \<and> s ! 4 = CHR ''-'' \<and>
      list_all is_digit (take 2 (drop 5 s)) \<and> s ! 7 = CHR ''-'' \<and>
      list_all is_digit (take 2 (drop 8 s)))"

definition date_digits :: "string \<Rightarrow> string" where
  "date_digits s = take 4 s @ take 2 (drop 5 s) @ take 2 (drop 8 s)"

definition is_date_only :: "string \<Rightarrow> bool" where
  "is_date_only s = (length s = 10 \<and> iso_date_prefix s)"

text \<open>
  The normalized record of a component in the words of the specification, field by field:
  the text fields are those of the component, the empty string standing for one that is
  missing; the priority is the component's; and a date is \<^verbatim>\<open>null\<close> when it is absent, the string
  itself when it arrives as a string, and the ISO string of the date when it arrives as a
  date object. An invalid date object has no ISO string.
\<close>

definition decodes_to :: "parsed_date \<Rightarrow> string option \<Rightarrow> bool" where
  "decodes_to d v =
     (case d of
        Absent \<Rightarrow> v = None
      | DateText s \<Rightarrow> (if s = [] then v = None else v = Some s)
      | DateObj x \<Rightarrow> (case x of None \<Rightarrow> False | Some t \<Rightarrow> v = Some (toISOString t))
      | DateLike s \<Rightarrow> v = Some s)"

definition text_or_blank :: "text_value option \<Rightarrow> text_value" where
  "text_or_blank v = (case v of None \<Rightarrow> Str [] | Some w \<Rightarrow> w)"

definition normalized_record :: "'p component \<Rightarrow> 'p ical_object \<Rightarrow> bool" where
  "normalized_record c r =
     (o_uid r = comp_uid c \<and>
      o_summary r = text_or_blank (comp_summary c) \<and>
      o_description r = text_or_blank (comp_description c) \<and>
      decodes_to (comp_start c) (o_start r) \<and>
      decodes_to (comp_end c) (o_end r) \<and>
      o_location r = text_or_blank (comp_location c) \<and>
      o_status r = text_or_blank (comp_status c) \<and>
      o_priority r = comp_priority c \<and>
      decodes_to (comp_completed c) (o_completed r) \<and>
      decodes_to (comp_due c) (o_due r))"

definition valid_dates :: "'p component \<Rightarrow> bool" where
  "valid_dates c =
     (comp_start c \<noteq> DateObj None \<and> comp_end c \<noteq> DateObj None \<and>
      comp_completed c \<noteq> DateObj None \<and> comp_due c \<noteq> DateObj None)"

text \<open>The record of the stored todo, written out.\<close>

definition todo_record :: "int option ical_object" where
  "todo_record =
     \<lparr>o_uid = Some (Str ''t1''), o_summary = Str ''Buy milk'', o_description = Str [],
      o_start = None, o_end = None, o_location = Str [], o_status = Str ''NEEDS-ACTION'',
      o_priority = Some 5, o_completed = None, o_due = Some ''2026-03-02T00:00:00.000Z''\<rparr>"

text \<open>
  Strings without a line break, and contacts none of whose fields has one. An absent uid
  is written as the text \<^verbatim>\<open>undefined\<close>.
\<close>

definition no_line_break :: "string \<Rightarrow> bool" where
  "no_line_break s = (CR \<notin> set s \<and> LF \<notin> set s)"

definition plain_contact :: "contact \<Rightarrow> bool" where
  "plain_contact c =
     list_all (\<lambda>v. no_line_break (or_empty v))
       [vc_uid c, vc_full_name c, vc_first_name c, vc_last_name c, vc_email c, vc_phone c,
        vc_org c, vc_title c, vc_note c]"

text \<open>
  Contacts whose text breaks the FN line: a full name that begins with a line break, and a
  note that holds a line break and the text of an FN line.
\<close>

definition broken_name_contact :: contact where
  "broken_name_contact =
     no_contact\<lparr>vc_uid := Some ''c3'', vc_full_name := Some ([CR, LF] @ ''Ann Lee'')\<rparr>"

definition broken_note_contact :: contact where
  "broken_note_contact =
     no_contact\<lparr>vc_uid := Some ''c4'', vc_full_name := Some ''Ann Lee'',
                vc_note := Some (''call back'' @ [CR, LF] @ ''FN:'')\<rparr>"

text \<open>
  Event records as a caller supplies them to \<^verbatim>\<open>radicale_create_event\<close>: the uid is a string, and
  every other text field is a string or missing. Such a record is plain when none of these
  strings holds a line break or a backslash, the character that starts an escape sequence
  in the text of an iCalendar property.
\<close>

abbreviation BSL :: char where "BSL \<equiv> CHR 0x5C"

definition plain_text :: "string \<Rightarrow> bool" where
  "plain_text s = (CR \<notin> set s \<and> LF \<notin> set s \<and> BSL \<notin> set s)"

definition plain_value :: "text_value option \<Rightarrow> bool" where
  "plain_value v =
     (case v of None \<Rightarrow> True | Some (Str s) \<Rightarrow> plain_text s | Some (Obj ps w) \<Rightarrow> False)"

definition plain_event :: "vevent \<Rightarrow> bool" where
  "plain_event r =
     (ev_uid r \<noteq> None \<and> plain_value (ev_uid r) \<and> plain_value (ev_summary r) \<and>
      plain_value (ev_description r) \<and> plain_value (ev_location r))"

text \<open>
  What the round trip assumes of the parser. The library splits the text at \<^verbatim>\<open>/\r?\n/\<close>, joins
  a line that begins with a space or a tab to the line before it, and reads each line
  between \<^verbatim>\<open>BEGIN:VEVENT\<close> and \<^verbatim>\<open>END:VEVENT\<close> as a property of the event. \<open>named key ls\<close> are the
  lines of that name; the name of a line ends at its first colon or semicolon.
\<close>

definition is_continuation :: "string \<Rightarrow> bool" where
  "is_continuation l = (case l of [] \<Rightarrow> False | c # cs \<Rightarrow> c = CHR '' '' \<or> c = CHR 0x09)"

fun unfold_ical :: "string list \<Rightarrow> string list" where
  "unfold_ical [] = []"
| "unfold_ical [l] = [l]"
| "unfold_ical (l # n # ls) =
     (if is_continuation n
      then (case unfold_ical (n # ls) of [] \<Rightarrow> [l] | m # ms \<Rightarrow> (l @ tl m) # ms)
      else l # unfold_ical (n # ls))"

definition event_lines :: "string list \<Rightarrow> string list" where
  "event_lines ls =
     takeWhile (\<lambda>l. l \<noteq> ''END:VEVENT'') (drop 1 (dropWhile (\<lambda>l. l \<noteq> ''BEGIN:VEVENT'') ls))"

definition line_name :: "string \<Rightarrow> string" where
  "line_name l = takeWhile (\<lambda>c. c \<noteq> CHR '':'' \<and> c \<noteq> CHR '';'') l"

definition named :: "string \<Rightarrow> string list \<Rightarrow> string list" where
  "named key ls = filter (\<lambda>l. line_name l = key) ls"

text \<open>
  A text property: no line of the name leaves the property \<^verbatim>\<open>undefined\<close>, and a single line
  \<^verbatim>\<open>NAME:value\<close> without backslash gives it the string \<^verbatim>\<open>value\<close>. How a line with parameters, a
  value with an escape sequence or a repeated property is read is left open.
\<close>

definition reads_text :: "string \<Rightarrow> string list \<Rightarrow> text_value option \<Rightarrow> bool" where
  "reads_text key ls v =
     (case named key ls of
        [] \<Rightarrow> v = None
      | [l] \<Rightarrow>
          take (length key + 1) l = key @ '':'' \<and> BSL \<notin> set l \<longrightarrow>
            v = Some (Str (drop (length key + 1) l))
      | _ \<Rightarrow> True)"

text \<open>
  A date-time token \<^verbatim>\<open>YYYYMMDDTHHMMSSZ\<close> names an instant in whole seconds; \<open>token_to_iso\<close> is
  the ISO string of that instant. The year has four digits, or six digits with a sign, of
  which \<^verbatim>\<open>isoToIcal\<close> keeps the plus and drops the minus: the length of the token tells the
  three forms apart.
\<close>

definition token_to_iso :: "string \<Rightarrow> string" where
  "token_to_iso s =
     (let n = length s - 12;
          year = (if n = 6 then ''-'' @ take n s else take n s);
          rest = drop n s
      in year @ ''-'' @ take 2 rest @ ''-'' @ take 2 (drop 2 rest) @ ''T'' @ take 2 (drop 5 rest) @
         '':'' @ take 2 (drop 7 rest) @ '':'' @ take 2 (drop 9 rest) @ ''.000Z'')"

text \<open>
  A date property: a single line \<^verbatim>\<open>NAME:token\<close> gives it the \<^verbatim>\<open>Date\<close> of the instant that the
  token names. An event without a DTEND line ends when it starts: the library sets its
  end to the start.
\<close>

definition reads_date_line :: "string \<Rightarrow> string \<Rightarrow> parsed_date \<Rightarrow> bool" where
  "reads_date_line key l d =
     (take (length key + 1) l = key @ '':'' \<longrightarrow>
        (case d of
           DateObj (Some t) \<Rightarrow> toISOString t = token_to_iso (drop (length key + 1) l)
         | _ \<Rightarrow> False))"

definition reads_start :: "string list \<Rightarrow> parsed_date \<Rightarrow> bool" where
  "reads_start ls d =
     (case named ''DTSTART'' ls of [l] \<Rightarrow> reads_date_line ''DTSTART'' l d | _ \<Rightarrow> True)"

definition reads_end :: "string list \<Rightarrow> parsed_date \<Rightarrow> parsed_date \<Rightarrow> bool" where
  "reads_end ls start d =
     (case named ''DTEND'' ls of
        [] \<Rightarrow> d = start
      | [l] \<Rightarrow> reads_date_line ''DTEND'' l d
      | _ \<Rightarrow> True)"

text \<open>
  The component of the event and the entries of the calendar: the parser reports one
  component of type VEVENT, whatever else it reports, and that component reads the lines
  of the event.
\<close>

definition reads_vevent :: "string list \<Rightarrow> 'p component \<Rightarrow> bool" where
  "reads_vevent ls c =
     (reads_text ''UID'' ls (comp_uid c) \<and> reads_text ''SUMMARY'' ls (comp_summary c) \<and>
      reads_text ''DESCRIPTION'' ls (comp_description c) \<and>
      reads_text ''LOCATION'' ls (comp_location c) \<and> reads_text ''STATUS'' ls (comp_status c) \<and>
      reads_start ls (comp_start c) \<and> reads_end ls (comp_start c) (comp_end c) \<and>
      (named ''COMPLETED'' ls = [] \<longrightarrow> comp_completed c = Absent) \<and>
      (named ''DUE'' ls = [] \<longrightarrow> comp_due c = Absent))"

definition reads_calendar :: "string \<Rightarrow> (string \<times> 'p component) list \<Rightarrow> bool" where
  "reads_calendar text entries =
     (case filter (\<lambda>c. comp_type c = ''VEVENT'') (map snd entries) of
        [c] \<Rightarrow> reads_vevent (event_lines (unfold_ical (split_lines text))) c
      | _ \<Rightarrow> False)"

text \<open>
  A timed event without end, as \<^verbatim>\<open>radicale_create_event\<close> passes it on; the same event with
  half a second more in its start and no description at all; the text of both; the
  component that node-ical reports for that text, whose end is its start; and the record
  decoded from it.
\<close>

definition timed_event :: vevent where
  "timed_event =
     \<lparr>ev_uid = Some (Str ''u2''), ev_summary = Some (Str ''Standup''),
      ev_dtstart = Some ''2026-03-01T09:00:00Z'', ev_dtend = None, ev_description = Some (Str []),
      ev_location = Some (Str ''Room 1''), ev_allDay = Some False\<rparr>"

definition timed_event_ms :: vevent where
  "timed_event_ms =
     \<lparr>ev_uid = Some (Str ''u2''), ev_summary = Some (Str ''Standup''),
      ev_dtstart = Some ''2026-03-01T09:00:00.500Z'', ev_dtend = None, ev_description = None,
      ev_location = Some (Str ''Room 1''), ev_allDay = None\<rparr>"

definition timed_text :: string where
  "timed_text = join [CR, LF]
     [''BEGIN:VCALENDAR'', ''VERSION:2.0'', ''PRODID:-//Radicale MCP//EN'', ''BEGIN:VEVENT'',
      ''UID:u2'', ''DTSTAMP:20260301T090000Z'', ''DTSTART:20260301T090000Z'',
      ''SUMMARY:Standup'', ''LOCATION:Room 1'', ''END:VEVENT'', ''END:VCALENDAR'']"

definition timed_component :: "int option component" where
  "timed_component =
     \<lparr>comp_type = ''VEVENT'', comp_uid = Some (Str ''u2''), comp_summary = Some (Str ''Standup''),
      comp_description = None, comp_start = DateObj (Some 1772355600000),
      comp_end = DateObj (Some 1772355600000),
      comp_location = Some (Str ''Room 1''), comp_status = None, comp_priority = None,
      comp_completed = Absent, comp_due = Absent\<rparr>"

definition timed_record :: "int option ical_object" where
  "timed_record =
     \<lparr>o_uid = Some (Str ''u2''), o_summary = Str ''Standup'', o_description = Str [],
      o_start = Some ''2026-03-01T09:00:00.000Z'', o_end = Some ''2026-03-01T09:00:00.000Z'',
      o_location = Str ''Room 1'', o_status = Str [], o_priority = None, o_completed = None,
      o_due = None\<rparr>"

text \<open>
  An event whose summary line has a parameter, \<^verbatim>\<open>SUMMARY;LANGUAGE=en:Standup\<close>: node-ical reports
  the summary as the object \<^verbatim>\<open>{params, val}\<close>, and the record carries that object.
\<close>

definition tagged_component :: "int option component" where
  "tagged_component =
     timed_component\<lparr>comp_uid := Some (Str ''u5''),
                      comp_summary := Some (Obj [(''LANGUAGE'', ''en'')] ''Standup'')\<rparr>"

definition tagged_record :: "int option ical_object" where
  "tagged_record =
     timed_record\<lparr>o_uid := Some (Str ''u5''), o_summary := Obj [(''LANGUAGE'', ''en'')] ''Standup''\<rparr>"

text \<open>
  The same event with an end an hour and a half later, its text, its component and its
  record.
\<close>

definition ended_event :: vevent where
  "ended_event = timed_event\<lparr>ev_dtend := Some ''2026-03-01T10:30:00Z''\<rparr>"

definition ended_text :: string where
  "ended_text = join [CR, LF]
     [''BEGIN:VCALENDAR'', ''VERSION:2.0'', ''PRODID:-//Radicale MCP//EN'', ''BEGIN:VEVENT'',
      ''UID:u2'', ''DTSTAMP:20260301T090000Z'', ''DTSTART:20260301T090000Z'',
      ''DTEND:20260301T103000Z'', ''SUMMARY:Standup'', ''LOCATION:Room 1'', ''END:VEVENT'',
      ''END:VCALENDAR'']"

definition ended_component :: "int option component" where
  "ended_component = timed_component\<lparr>comp_end := DateObj (Some 1772361000000)\<rparr>"

definition ended_record :: "int option ical_object" where
  "ended_record = timed_record\<lparr>o_end := Some ''2026-03-01T10:30:00.000Z''\<rparr>"

text \<open>
  An event whose description holds a line break and the text of a LOCATION line; the
  event that has this location and the first line as its description; and the component
  and the record of their common text.
\<close>

definition two_line_event :: vevent where
  "two_line_event =
     \<lparr>ev_uid = Some (Str ''u3''), ev_summary = Some (Str ''Review''),
      ev_dtstart = Some ''2026-03-01T09:00:00Z'', ev_dtend = None,
      ev_description = Some (Str (''Agenda'' @ [CR, LF] @ ''LOCATION:Room 2'')), ev_location = None,
      ev_allDay = Some False\<rparr>"

definition located_event :: vevent where
  "located_event =
     \<lparr>ev_uid = Some (Str ''u3''), ev_summary = Some (Str ''Review''),
      ev_dtstart = Some ''2026-03-01T09:00:00Z'', ev_dtend = None,
      ev_description = Some (Str ''Agenda''), ev_location = Some (Str ''Room 2''),
      ev_allDay = Some False\<rparr>"

definition located_component :: "int option component" where
  "located_component =
     \<lparr>comp_type = ''VEVENT'', comp_uid = Some (Str ''u3''), comp_summary = Some (Str ''Review''),
      comp_description = Some (Str ''Agenda''), comp_start = DateObj (Some 1772355600000),
      comp_end = DateObj (Some 1772355600000),
      comp_location = Some (Str ''Room 2''), comp_status = None, comp_priority = None,
      comp_completed = Absent, comp_due = Absent\<rparr>"

text \<open>
  An event whose summary holds a backslash before the letter n, which the text of an
  iCalendar property reads as a line feed, and the component node-ical reports for it.
\<close>

definition escaped_event :: vevent where
  "escaped_event =
     \<lparr>ev_uid = Some (Str ''u4''), ev_summary = Some (Str (''Files in C:'' @ [BSL] @ ''new'')),
      ev_dtstart = Some ''2026-03-01T09:00:00Z'', ev_dtend = None, ev_description = None,
      ev_location = None, ev_allDay = Some False\<rparr>"

definition escaped_text :: string where
  "escaped_text = join [CR, LF]
     [''BEGIN:VCALENDAR'', ''VERSION:2.0'', ''PRODID:-//Radicale MCP//EN'', ''BEGIN:VEVENT'',
      ''UID:u4'', ''DTSTAMP:20260301T090000Z'', ''DTSTART:20260301T090000Z'',
      ''SUMMARY:Files in C:'' @ [BSL] @ ''new'', ''END:VEVENT'', ''END:VCALENDAR'']"

definition escaped_component :: "int option component" where
  "escaped_component =
     \<lparr>comp_type = ''VEVENT'', comp_uid = Some (Str ''u4''),
      comp_summary = Some (Str (''Files in C:'' @ [LF] @ ''ew'')),
      comp_description = None, comp_start = DateObj (Some 1772355600000),
      comp_end = DateObj (Some 1772355600000),
      comp_location = None, comp_status = None, comp_priority = None,
      comp_completed = Absent, comp_due = Absent\<rparr>"

text \<open>The lines of a timed event, written out: those of the event, and all of them.\<close>

definition timed_body :: "int \<Rightarrow> vevent \<Rightarrow> string \<Rightarrow> string list \<Rightarrow> string list" where
  "timed_body clock r s en =
     [''UID:'' @ template_value (ev_uid r), ''DTSTAMP:'' @ ical_stamp clock, ''DTSTART:'' @ s] @ en @
     push_value ''SUMMARY:'' (ev_summary r) @ push_value ''DESCRIPTION:'' (ev_description r) @
     push_value ''LOCATION:'' (ev_location r)"

definition timed_lines :: "int \<Rightarrow> vevent \<Rightarrow> string \<Rightarrow> string list \<Rightarrow> string list" where
  "timed_lines clock r s en =
     [''BEGIN:VCALENDAR'', ''VERSION:2.0'', ''PRODID:-//Radicale MCP//EN'', ''BEGIN:VEVENT''] @
     timed_body clock r s en @ [''END:VEVENT'', ''END:VCALENDAR'']"

section \<open>Collection creation: the segment is the one the specification describes\<close>

lemma collapse_nonalnum:
  "\<not> is_az09 c \<Longrightarrow>
   collapse_runs (c # cs) = CHR ''-'' # collapse_runs (dropWhile (\<lambda>x. \<not> is_az09 x) cs)"
proof (induction cs arbitrary: c)
  case Nil
  then show ?case by simp
next
  case (Cons d ds)
  then show ?case by (cases "is_az09 d") simp_all
qed

lemma collapse_alnum: "is_az09 c \<Longrightarrow> collapse_runs (c # cs) = c # collapse_runs cs"
  by (cases cs) simp_all

lemma replace_runs_collapse: "replace_runs s = collapse_runs s"
proof (induction s rule: replace_runs.induct)
  case 1
  show ?case by simp
next
  case (2 c cs)
  show ?case
  proof (cases "is_az09 c")
    case True
    with 2 show ?thesis by (simp add: collapse_alnum)
  next
    case False
    with 2 show ?thesis by (simp add: collapse_nonalnum)
  qed
qed

text \<open>No two hyphens are neighbours once the runs are collapsed.\<close>

lemma hyphen_not_az09: "\<not> is_az09 (CHR ''-'')"
  by (simp add: is_az09_def)

lemma successively_collapse: "successively hyphen_free_pair (collapse_runs s)"
proof (induction s rule: collapse_runs.induct)
  case 1
  show ?case by simp
next
  case (2 c)
  show ?case by simp
next
  case (3 c d cs)
  show ?case
  proof (cases "is_az09 c")
    case True
    then have "c \<noteq> CHR ''-''" using hyphen_not_az09 by auto
    with True 3 show ?thesis
      by (cases "collapse_runs (d # cs)") (auto simp: hyphen_free_pair_def)
  next
    case False
    show ?thesis
    proof (cases "is_az09 d")
      case True
      then have "d \<noteq> CHR ''-''" using hyphen_not_az09 by auto
      with False True 3 show ?thesis
        by (cases cs) (auto simp: hyphen_free_pair_def successively_Cons split: if_splits)
    next
      case d: False
      with False 3 show ?thesis by simp
    qed
  qed
qed

lemma dropWhile_hyphen_once:
  "successively hyphen_free_pair s \<Longrightarrow>
   dropWhile (\<lambda>c. c = CHR ''-'') s =
     (case s of [] \<Rightarrow> [] | c # cs \<Rightarrow> if c = CHR ''-'' then cs else s)"
  by (cases s; cases "tl s") (auto simp: hyphen_free_pair_def successively_Cons)

lemma successively_after_first:
  "successively hyphen_free_pair s \<Longrightarrow>
   successively hyphen_free_pair (case s of [] \<Rightarrow> [] | c # cs \<Rightarrow> if c = CHR ''-'' then cs else s)"
  by (cases s) (auto simp: successively_Cons)

lemma rev_dropWhile_hyphen_once:
  assumes "successively hyphen_free_pair u"
  shows "rev (dropWhile (\<lambda>c. c = CHR ''-'') (rev u)) =
         (if u \<noteq> [] \<and> last u = CHR ''-'' then butlast u else u)"
proof -
  have sym: "(\<lambda>x y. hyphen_free_pair y x) = hyphen_free_pair"
    by (auto simp: hyphen_free_pair_def fun_eq_iff)
  have "successively (\<lambda>x y. hyphen_free_pair y x) u"
    using assms by (simp only: sym)
  then have "successively hyphen_free_pair (rev u)"
    by (simp only: successively_rev)
  then have "dropWhile (\<lambda>c. c = CHR ''-'') (rev u) =
      (case rev u of [] \<Rightarrow> [] | c # cs \<Rightarrow> if c = CHR ''-'' then cs else rev u)"
    by (rule dropWhile_hyphen_once)
  then show ?thesis
    by (cases u rule: rev_cases) auto
qed

lemma strip_ends_trim:
  "successively hyphen_free_pair s \<Longrightarrow> strip_ends s = trim_hyphens s"
  unfolding strip_ends_def trim_hyphens_def Let_def
  using dropWhile_hyphen_once [of s] successively_after_first [of s]
        rev_dropWhile_hyphen_once
          [of "case s of [] \<Rightarrow> [] | c # cs \<Rightarrow> if c = CHR ''-'' then cs else s"]
  by simp

lemma slug_refines_spec: "slug name = path_segment_spec name"
  by (simp add: slug_def path_segment_spec_def replace_runs_collapse
      strip_ends_trim successively_collapse)

lemma slug_team_sync: "slug ''Team Sync'' = ''team-sync''"
  by code_simp

text \<open>
  Claim C7. For every collection-creation call, calendar or address book, the path segment
  of the URL is the name lowercased, with each run of characters outside a-z and 0-9
  replaced by one hyphen and the leading and trailing hyphens trimmed; the name
  "Team Sync" gives the segment "team-sync".
\<close>

theorem create_collection_path_segment:
  "calUrl radicale_url radicale_username name =
     radicale_url @ ''/'' @ radicale_username @ ''/'' @ path_segment_spec name @ ''/'' \<and>
   bookUrl radicale_url radicale_username name =
     radicale_url @ ''/'' @ radicale_username @ ''/'' @ path_segment_spec name @ ''/'' \<and>
   slug ''Team Sync'' = ''team-sync''"
proof (intro conjI)
  show "calUrl radicale_url radicale_username name =
     radicale_url @ ''/'' @ radicale_username @ ''/'' @ path_segment_spec name @ ''/''"
    by (simp add: calUrl_def slug_refines_spec)
  show "bookUrl radicale_url radicale_username name =
     radicale_url @ ''/'' @ radicale_username @ ''/'' @ path_segment_spec name @ ''/''"
    by (simp add: bookUrl_def slug_refines_spec)
  show "slug ''Team Sync'' = ''team-sync''"
    by (rule slug_team_sync)
qed

section \<open>Updating a todo: the derived field\<close>

lemma radicale_update_todo_Inr:
  assumes "radicale_update_todo parseICS clock a objects = Inr merged"
  shows "\<exists>ob obs existing more. objects = ob # obs \<and>
           parseIcalObjects parseICS (obj_data ob) ''VTODO'' = Inr (existing # more) \<and>
           merged = merge_todo clock a existing"
  using assms unfolding radicale_update_todo_def
  by (auto split: list.splits sum.splits)

text \<open>
  Claim C2. Whenever \<^verbatim>\<open>radicale_update_todo\<close> merges, the merged status is the status the caller
  supplied, or else the decoded one; the merged \<open>completed\<close> is the current instant if that
  status is COMPLETED and null otherwise. The request has no \<open>completed\<close> field, and the
  decoded \<open>completed\<close> is not read.
\<close>

theorem todo_update_sets_completed:
  assumes "radicale_update_todo parseICS clock a objects = Inr merged"
  shows "td_completed merged =
           (if td_status merged = Str ''COMPLETED'' then Some (toISOString clock) else None) \<and>
         (\<exists>ob obs existing more. objects = ob # obs \<and>
            parseIcalObjects parseICS (obj_data ob) ''VTODO'' = Inr (existing # more) \<and>
            td_status merged = overlay (map_option Str (t_status a)) (o_status existing))"
proof -
  from radicale_update_todo_Inr [OF assms] obtain ob obs existing more where
    o: "objects = ob # obs"
    and p: "parseIcalObjects parseICS (obj_data ob) ''VTODO'' = Inr (existing # more)"
    and m: "merged = merge_todo clock a existing"
    by blast
  have "td_status merged = overlay (map_option Str (t_status a)) (o_status existing)"
    by (simp add: m merge_todo_def overlay_def Let_def split: option.splits)
  moreover have "td_completed merged =
      (if td_status merged = Str ''COMPLETED'' then Some (toISOString clock) else None)"
    by (simp add: m merge_todo_def Let_def)
  ultimately show ?thesis using o p by blast
qed

theorem todo_update_sets_completed_witness:
  "(case radicale_update_todo (reports [(''t1'', todo_component)]) clock0 complete_todo [todo_object] of
      Inl e \<Rightarrow> False
    | Inr m \<Rightarrow> td_status m = Str ''COMPLETED'' \<and> td_completed m = Some ''2026-03-01T09:00:00.500Z'')"
proof -
  have h: "radicale_update_todo (reports [(''t1'', todo_component)]) clock0 complete_todo [todo_object] =
     Inr \<lparr>td_uid = Some (Str ''t1''), td_summary = Str ''Buy milk'', td_description = Str [],
          td_due = Some ''2026-03-02T00:00:00.000Z'', td_priority = Some 5,
          td_status = Str ''COMPLETED'', td_completed = Some ''2026-03-01T09:00:00.500Z''\<rparr>"
    by code_simp
  from todo_update_sets_completed [OF h] show ?thesis
    using h by simp
qed


section \<open>Decoding: the components of the requested kind\<close>

lemma push_results_iff:
  assumes "kind = ''VEVENT'' \<or> kind = ''VTODO''"
  shows "push_results kind cs = Inr rs \<longleftrightarrow>
         map to_object (filter (\<lambda>c. comp_type c = kind) cs) = map Inr rs"
proof (induction cs arbitrary: rs)
  case Nil
  show ?case by auto
next
  case (Cons c cs)
  have sel: "((kind = ''VEVENT'' \<and> comp_type c = ''VEVENT'') \<or>
              (kind = ''VTODO'' \<and> comp_type c = ''VTODO'')) = (comp_type c = kind)"
    using assms by auto
  have eq: "push_results kind (c # cs) =
      (if comp_type c = kind
       then (case to_object c of
               Inl e \<Rightarrow> Inl e
             | Inr r \<Rightarrow> (case push_results kind cs of Inl e \<Rightarrow> Inl e | Inr rs \<Rightarrow> Inr (r # rs)))
       else push_results kind cs)"
    by (simp only: push_results.simps sel)
  show ?case
  proof (cases "comp_type c = kind")
    case False
    with eq Cons show ?thesis by simp
  next
    case True
    show ?thesis
    proof (cases "to_object c")
      case (Inl e)
      with True eq show ?thesis by (cases rs) auto
    next
      case (Inr r)
      show ?thesis
      proof (cases "push_results kind cs")
        case (Inl e)
        with Cons [of "tl rs"] Inr True eq show ?thesis by (cases rs) auto
      next
        case rest: (Inr rs')
        with Cons [of rs'] Cons [of "tl rs"] Inr True eq show ?thesis by (cases rs) auto
      qed
    qed
  qed
qed

text \<open>The record that the code builds for a component is the normalized record, and the only one.\<close>

lemma icalDateToIso_iff: "icalDateToIso d = Inr v \<longleftrightarrow> decodes_to d v"
  by (auto simp: icalDateToIso_def decodes_to_def split: parsed_date.splits option.splits)

lemma or_empty_value_blank: "or_empty_value v = text_or_blank v"
  by (simp add: or_empty_value_def text_or_blank_def split: option.splits text_value.splits)

lemma to_object_iff: "to_object c = Inr r \<longleftrightarrow> normalized_record c r"
proof
  assume "to_object c = Inr r"
  then obtain s en co du where
    d: "icalDateToIso (comp_start c) = Inr s" "icalDateToIso (comp_end c) = Inr en"
       "icalDateToIso (comp_completed c) = Inr co" "icalDateToIso (comp_due c) = Inr du"
    and r: "r = \<lparr>o_uid = comp_uid c, o_summary = or_empty_value (comp_summary c),
             o_description = or_empty_value (comp_description c), o_start = s, o_end = en,
             o_location = or_empty_value (comp_location c),
             o_status = or_empty_value (comp_status c),
             o_priority = comp_priority c, o_completed = co, o_due = du\<rparr>"
    unfolding to_object_def by (auto split: sum.splits)
  from d show "normalized_record c r"
    by (simp add: normalized_record_def r icalDateToIso_iff or_empty_value_blank)
next
  assume n: "normalized_record c r"
  then have d: "icalDateToIso (comp_start c) = Inr (o_start r)"
      "icalDateToIso (comp_end c) = Inr (o_end r)"
      "icalDateToIso (comp_completed c) = Inr (o_completed r)"
      "icalDateToIso (comp_due c) = Inr (o_due r)"
    by (simp_all add: normalized_record_def icalDateToIso_iff)
  from n show "to_object c = Inr r"
    by (cases r) (simp add: to_object_def d normalized_record_def or_empty_value_blank)
qed

lemma decodes_to_valid:
  assumes "d \<noteq> DateObj None"
  shows "\<exists>v. decodes_to d v"
proof (cases d)
  case (DateObj x)
  with assms obtain t where "x = Some t" by (cases x) auto
  with DateObj show ?thesis by (simp add: decodes_to_def)
next
  case (DateText s)
  then show ?thesis by (cases "s = []") (simp_all add: decodes_to_def)
qed (simp_all add: decodes_to_def)

lemma to_object_valid:
  assumes "valid_dates c"
  shows "\<exists>r. to_object c = Inr r"
proof -
  from assms obtain s en co du where
    "icalDateToIso (comp_start c) = Inr s" "icalDateToIso (comp_end c) = Inr en"
    "icalDateToIso (comp_completed c) = Inr co" "icalDateToIso (comp_due c) = Inr du"
    unfolding valid_dates_def icalDateToIso_iff using decodes_to_valid by metis
  then show ?thesis by (simp add: to_object_def)
qed

lemma map_to_object_iff:
  "map to_object cs = map Inr rs \<longleftrightarrow> list_all2 normalized_record cs rs"
proof (induction cs arbitrary: rs)
  case Nil
  show ?case by auto
next
  case (Cons c cs)
  then show ?case by (cases rs) (auto simp: to_object_iff)
qed

lemma push_results_valid:
  assumes "kind = ''VEVENT'' \<or> kind = ''VTODO''"
    and "list_all valid_dates (filter (\<lambda>c. comp_type c = kind) cs)"
  shows "\<exists>rs. push_results kind cs = Inr rs"
  using assms(2)
proof (induction cs)
  case Nil
  show ?case by simp
next
  case (Cons c cs)
  show ?case
  proof (cases "comp_type c = kind")
    case False
    with Cons assms(1) show ?thesis by auto
  next
    case True
    with Cons.prems have "valid_dates c" by simp
    from to_object_valid [OF this] obtain r where "to_object c = Inr r" ..
    moreover from Cons True obtain rs where "push_results kind cs = Inr rs" by auto
    ultimately show ?thesis by simp
  qed
qed

text \<open>
  Claim C6. When the parser returns and the requested kind is VEVENT or VTODO, decoding
  succeeds with a sequence of records exactly when these are the normalized records of the
  components of that kind, in their order and one for each: uid, summary, description,
  location, status and priority are the component's (a string, or for a property line
  with parameters the object that the parser reports, passed on as it is), the empty
  string standing for a missing text, and start, end, completed and due are \<^verbatim>\<open>null\<close>, the
  string or the ISO string of the date the component has. Decoding succeeds whenever none of these components has
  an invalid date object; and when no component has the kind the result is the empty
  sequence and not an error. A text that holds only a VTODO decodes to the empty sequence
  for VEVENT.
\<close>

theorem decode_returns_components_of_kind:
  assumes "parseICS data = Inr parsed" and "kind = ''VEVENT'' \<or> kind = ''VTODO''"
  shows "(parseIcalObjects parseICS data kind = Inr rs \<longleftrightarrow>
            list_all2 normalized_record (filter (\<lambda>c. comp_type c = kind) (map snd parsed)) rs) \<and>
         (list_all valid_dates (filter (\<lambda>c. comp_type c = kind) (map snd parsed)) \<longrightarrow>
            (\<exists>rs. parseIcalObjects parseICS data kind = Inr rs)) \<and>
         (filter (\<lambda>c. comp_type c = kind) (map snd parsed) = [] \<longrightarrow>
            parseIcalObjects parseICS data kind = Inr [])"
proof (intro conjI impI)
  show "parseIcalObjects parseICS data kind = Inr rs \<longleftrightarrow>
        list_all2 normalized_record (filter (\<lambda>c. comp_type c = kind) (map snd parsed)) rs"
    using push_results_iff [OF assms(2), of "map snd parsed" rs]
    by (simp add: parseIcalObjects_def assms(1) map_to_object_iff)
next
  assume "list_all valid_dates (filter (\<lambda>c. comp_type c = kind) (map snd parsed))"
  from push_results_valid [OF assms(2) this]
  show "\<exists>rs. parseIcalObjects parseICS data kind = Inr rs"
    by (simp add: parseIcalObjects_def assms(1))
next
  assume "filter (\<lambda>c. comp_type c = kind) (map snd parsed) = []"
  then show "parseIcalObjects parseICS data kind = Inr []"
    using push_results_iff [OF assms(2), of "map snd parsed" "[]"]
    by (simp add: parseIcalObjects_def assms(1))
qed

theorem decode_returns_components_of_kind_witness:
  "parseIcalObjects (reports [(''t1'', todo_component)]) (obj_data todo_object) ''VEVENT'' = Inr [] \<and>
   parseIcalObjects (reports [(''t1'', todo_component)]) (obj_data todo_object) ''VTODO'' =
     Inr [\<lparr>o_uid = Some (Str ''t1''), o_summary = Str ''Buy milk'', o_description = Str [],
           o_start = None, o_end = None, o_location = Str [], o_status = Str ''NEEDS-ACTION'',
           o_priority = Some 5, o_completed = None, o_due = Some ''2026-03-02T00:00:00.000Z''\<rparr>] \<and>
   parseIcalObjects (reports [(''u5'', tagged_component), (''t1'', todo_component)])
       (obj_data todo_object) ''VEVENT'' =
     Inr [\<lparr>o_uid = Some (Str ''u5''), o_summary = Obj [(''LANGUAGE'', ''en'')] ''Standup'',
           o_description = Str [], o_start = Some ''2026-03-01T09:00:00.000Z'',
           o_end = Some ''2026-03-01T09:00:00.000Z'', o_location = Str ''Room 1'', o_status = Str [],
           o_priority = None, o_completed = None, o_due = None\<rparr>]"
proof -
  have h: "reports [(''t1'', todo_component)] (obj_data todo_object) = Inr [(''t1'', todo_component)]"
    "reports [(''u5'', tagged_component), (''t1'', todo_component)] (obj_data todo_object) =
       Inr [(''u5'', tagged_component), (''t1'', todo_component)]"
    by (simp_all add: reports_def)
  have ty: "comp_type todo_component = ''VTODO''" "comp_type tagged_component = ''VEVENT''"
    by (simp_all add: todo_component_def tagged_component_def timed_component_def)
  have n: "normalized_record todo_component todo_record"
    "normalized_record tagged_component tagged_record"
    by code_simp+
  have a: "parseIcalObjects (reports [(''t1'', todo_component)]) (obj_data todo_object) ''VEVENT'' = Inr []"
    using decode_returns_components_of_kind
            [of "reports [(''t1'', todo_component)]" "obj_data todo_object" "[(''t1'', todo_component)]"
                "''VEVENT''" "[]", OF h(1)] ty by simp
  have b: "parseIcalObjects (reports [(''t1'', todo_component)]) (obj_data todo_object) ''VTODO'' =
             Inr [todo_record]"
    using decode_returns_components_of_kind
            [of "reports [(''t1'', todo_component)]" "obj_data todo_object" "[(''t1'', todo_component)]"
                "''VTODO''" "[todo_record]", OF h(1)] ty n by simp
  have c: "parseIcalObjects (reports [(''u5'', tagged_component), (''t1'', todo_component)])
             (obj_data todo_object) ''VEVENT'' = Inr [tagged_record]"
    using decode_returns_components_of_kind
            [of "reports [(''u5'', tagged_component), (''t1'', todo_component)]" "obj_data todo_object"
                "[(''u5'', tagged_component), (''t1'', todo_component)]" "''VEVENT''" "[tagged_record]",
             OF h(2)] ty n by simp
  from a b c show ?thesis
    by (simp add: todo_record_def tagged_record_def timed_record_def)
qed

section \<open>Listing todos\<close>

lemma map_todos_iff:
  "map_todos parseICS objects = Inr mapped \<longleftrightarrow>
   list_all2 (\<lambda>ob ts. \<exists>todos. parseIcalObjects parseICS (obj_data ob) ''VTODO'' = Inr todos \<and>
      ts = map (\<lambda>t. summariseCalObject t (obj_url ob) (obj_etag ob)) todos) objects mapped"
proof (induction objects arbitrary: mapped)
  case Nil
  show ?case by auto
next
  case (Cons ob obs)
  show ?case
  proof (cases "parseIcalObjects parseICS (obj_data ob) ''VTODO''")
    case (Inl e)
    then show ?thesis by (auto simp: list_all2_Cons1)
  next
    case (Inr todos)
    show ?thesis
    proof (cases "map_todos parseICS obs")
      case (Inl e)
      with Cons Inr show ?thesis by (auto simp: list_all2_Cons1)
    next
      case rest: (Inr ms)
      with Cons Inr show ?thesis by (auto simp: list_all2_Cons1)
    qed
  qed
qed

text \<open>
  Claim C10, as amended. \<^verbatim>\<open>radicale_list_todos\<close> returns the decoded todos of the fetched objects
  that have a non-empty uid and, unless \<open>show_completed\<close> is true, a status other than
  COMPLETED, in their order; it fails only when decoding an object fails.
\<close>

theorem list_todos_filters:
  "radicale_list_todos parseICS show_completed objects = Inr results \<longleftrightarrow>
   (\<exists>mapped.
      list_all2 (\<lambda>ob ts. \<exists>todos. parseIcalObjects parseICS (obj_data ob) ''VTODO'' = Inr todos \<and>
         ts = map (\<lambda>t. summariseCalObject t (obj_url ob) (obj_etag ob)) todos) objects mapped \<and>
      results = filter (\<lambda>t. truthy_value (o_uid (l_item t)) \<and>
                    (show_completed = Some True \<or> o_status (l_item t) \<noteq> Str ''COMPLETED''))
                  (concat mapped))"
proof -
  have f: "\<And>xs. filter (\<lambda>t. show_completed = Some True \<or> o_status (l_item t) \<noteq> Str ''COMPLETED'')
            (filter (\<lambda>t. truthy_value (o_uid (l_item t))) xs) =
          filter (\<lambda>t. truthy_value (o_uid (l_item t)) \<and>
                    (show_completed = Some True \<or> o_status (l_item t) \<noteq> Str ''COMPLETED'')) xs"
    for xs :: "'a listed list"
    by (induction xs) auto
  show ?thesis
    unfolding radicale_list_todos_def f map_todos_iff [symmetric]
    by (cases "map_todos parseICS objects") auto
qed

theorem list_todos_filters_witness:
  "(case radicale_list_todos (reports [(''t1'', todo_component), (''t2'', done_component)]) None
          [todo_object] of
      Inl e \<Rightarrow> False
    | Inr rs \<Rightarrow> map (\<lambda>t. o_status (l_item t)) rs = [Str ''NEEDS-ACTION'']) \<and>
   (case radicale_list_todos (reports [(''t1'', todo_component), (''t2'', done_component)]) (Some True)
          [todo_object] of
      Inl e \<Rightarrow> False
    | Inr rs \<Rightarrow> map (\<lambda>t. o_status (l_item t)) rs = [Str ''NEEDS-ACTION'', Str ''COMPLETED''])"
proof -
  let ?P = "reports [(''t1'', todo_component), (''t2'', done_component)]"
  have a: "(case radicale_list_todos ?P None [todo_object] of
      Inl e \<Rightarrow> False
    | Inr rs \<Rightarrow> map (\<lambda>t. o_status (l_item t)) rs = [Str ''NEEDS-ACTION''])"
    by code_simp
  have b: "(case radicale_list_todos ?P (Some True) [todo_object] of
      Inl e \<Rightarrow> False
    | Inr rs \<Rightarrow> map (\<lambda>t. o_status (l_item t)) rs = [Str ''NEEDS-ACTION'', Str ''COMPLETED''])"
    by code_simp
  from a obtain rs where h: "radicale_list_todos ?P None [todo_object] = Inr rs"
    by (auto split: sum.splits)
  from list_todos_filters [THEN iffD1, OF h] obtain mapped where
    "rs = filter (\<lambda>t. truthy_value (o_uid (l_item t)) \<and>
                    (None = Some True \<or> o_status (l_item t) \<noteq> Str ''COMPLETED''))
                  (concat mapped)"
    by blast
  then have "\<forall>t\<in>set rs. o_status (l_item t) \<noteq> Str ''COMPLETED''"
    by simp
  with a b show ?thesis by simp
qed

text \<open>
  The claim as stated fails: a parsed todo without uid is not returned, whatever
  \<open>show_completed\<close> is.
\<close>

theorem list_todos_counterexample:
  "parseIcalObjects (reports [(''k'', nouid_component)]) (obj_data todo_object) ''VTODO'' =
     Inr [\<lparr>o_uid = None, o_summary = Str ''Buy milk'', o_description = Str [], o_start = None,
           o_end = None, o_location = Str [], o_status = Str ''COMPLETED'', o_priority = Some 5,
           o_completed = None, o_due = Some ''2026-03-02T00:00:00.000Z''\<rparr>] \<and>
   radicale_list_todos (reports [(''k'', nouid_component)]) (Some True) [todo_object] = Inr []"
  by code_simp

section \<open>Updating an event without the all-day flag\<close>

lemma isoToIcal_Inr:
  "isoToIcal dp v = Inr s \<longleftrightarrow> (\<exists>t. Date_new dp v = Some t \<and> s = ical_stamp t)"
  by (auto simp: isoToIcal_def ical_stamp_def split: option.splits)

lemma push_value_no_date_prefix:
  "l \<in> set (push_value ''SUMMARY:'' v) \<or> l \<in> set (push_value ''DESCRIPTION:'' v) \<or>
   l \<in> set (push_value ''LOCATION:'' v) \<Longrightarrow>
   \<not> prefix ''DTSTART;VALUE=DATE'' l \<and> \<not> prefix ''DTEND;VALUE=DATE'' l"
  by (auto simp: push_value_def split: if_splits)

lemma vevent_lines_timed:
  assumes "ev_allDay r \<noteq> Some True" and "vevent_lines dp clock r = Inr ls"
  shows "\<exists>t. Date_new dp (ev_dtstart r) = Some t \<and> ls ! 6 = ''DTSTART:'' @ ical_stamp t \<and>
           (truthy (ev_dtend r) \<longrightarrow>
              (\<exists>t2. Date_new dp (ev_dtend r) = Some t2 \<and> ls ! 7 = ''DTEND:'' @ ical_stamp t2)) \<and>
           (\<forall>l\<in>set ls. \<not> prefix ''DTSTART;VALUE=DATE'' l \<and> \<not> prefix ''DTEND;VALUE=DATE'' l)"
proof -
  from assms obtain s where s: "isoToIcal dp (ev_dtstart r) = Inr s"
    by (auto simp: vevent_lines_def Let_def split: sum.splits if_splits)
  then obtain t where t: "Date_new dp (ev_dtstart r) = Some t" "s = ical_stamp t"
    by (auto simp: isoToIcal_Inr)
  show ?thesis
  proof (cases "truthy (ev_dtend r)")
    case False
    with assms s have ls: "ls = [''BEGIN:VCALENDAR'', ''VERSION:2.0'', ''PRODID:-//Radicale MCP//EN'',
        ''BEGIN:VEVENT'', ''UID:'' @ template_value (ev_uid r), ''DTSTAMP:'' @ ical_stamp clock,
        ''DTSTART:'' @ s] @
        (push_value ''SUMMARY:'' (ev_summary r) @ push_value ''DESCRIPTION:'' (ev_description r) @
         push_value ''LOCATION:'' (ev_location r) @ [''END:VEVENT'', ''END:VCALENDAR''])"
      by (auto simp: vevent_lines_def Let_def)
    have "ls ! 6 = ''DTSTART:'' @ ical_stamp t"
      by (simp add: ls t)
    moreover have "\<forall>l\<in>set ls. \<not> prefix ''DTSTART;VALUE=DATE'' l \<and> \<not> prefix ''DTEND;VALUE=DATE'' l"
      unfolding ls using push_value_no_date_prefix by auto
    ultimately show ?thesis using t False by blast
  next
    case True
    with assms s obtain e where e: "isoToIcal dp (ev_dtend r) = Inr e"
      by (auto simp: vevent_lines_def Let_def split: sum.splits if_splits)
    then obtain t2 where t2: "Date_new dp (ev_dtend r) = Some t2" "e = ical_stamp t2"
      by (auto simp: isoToIcal_Inr)
    from assms s e True have ls: "ls = [''BEGIN:VCALENDAR'', ''VERSION:2.0'', ''PRODID:-//Radicale MCP//EN'',
        ''BEGIN:VEVENT'', ''UID:'' @ template_value (ev_uid r), ''DTSTAMP:'' @ ical_stamp clock,
        ''DTSTART:'' @ s, ''DTEND:'' @ e] @
        (push_value ''SUMMARY:'' (ev_summary r) @ push_value ''DESCRIPTION:'' (ev_description r) @
         push_value ''LOCATION:'' (ev_location r) @ [''END:VEVENT'', ''END:VCALENDAR''])"
      by (auto simp: vevent_lines_def Let_def)
    have "ls ! 6 = ''DTSTART:'' @ ical_stamp t" "ls ! 7 = ''DTEND:'' @ ical_stamp t2"
      by (simp_all add: ls t t2)
    moreover have "\<forall>l\<in>set ls. \<not> prefix ''DTSTART;VALUE=DATE'' l \<and> \<not> prefix ''DTEND;VALUE=DATE'' l"
      unfolding ls using push_value_no_date_prefix by auto
    ultimately show ?thesis using t t2 by blast
  qed
qed

lemma radicale_update_event_Inr:
  assumes "radicale_update_event parseICS dp clock event_url a objects = Inr (merged, written)"
  shows "\<exists>ob obs existing more ls. objects = ob # obs \<and>
           parseIcalObjects parseICS (obj_data ob) ''VEVENT'' = Inr (existing # more) \<and>
           merged = merge_event a existing \<and>
           vevent_lines dp clock merged = Inr ls \<and>
           written = \<lparr>obj_url = event_url, obj_etag = obj_etag ob, obj_data = join [CR, LF] ls\<rparr>"
  using assms unfolding radicale_update_event_def buildVEvent_def Let_def
  by (auto split: list.splits sum.splits)

text \<open>
  Claim C9. When \<^verbatim>\<open>radicale_update_event\<close> is called without \<open>all_day\<close> and writes, the merged
  \<open>allDay\<close> is false whatever the stored event is, and the text written has the DATE-TIME
  lines: \<^verbatim>\<open>DTSTART:\<close> with the token of the merged start, \<^verbatim>\<open>DTEND:\<close> with the token of the merged
  end when there is one, and no line of the DATE form. An all-day event updated with a new
  summary alone is written back with \<^verbatim>\<open>DTSTART:20260301T000000Z\<close>.
\<close>

theorem update_without_all_day_is_timed:
  assumes "a_all_day a = None"
    and "radicale_update_event parseICS dp clock event_url a objects = Inr (merged, written)"
  shows "ev_allDay merged = Some False \<and>
         (\<exists>ls t. obj_data written = join [CR, LF] ls \<and>
            Date_new dp (ev_dtstart merged) = Some t \<and> ls ! 6 = ''DTSTART:'' @ ical_stamp t \<and>
            (truthy (ev_dtend merged) \<longrightarrow>
               (\<exists>t2. Date_new dp (ev_dtend merged) = Some t2 \<and> ls ! 7 = ''DTEND:'' @ ical_stamp t2)) \<and>
            (\<forall>l\<in>set ls. \<not> prefix ''DTSTART;VALUE=DATE'' l \<and> \<not> prefix ''DTEND;VALUE=DATE'' l))"
proof -
  from radicale_update_event_Inr [OF assms(2)] obtain ob :: dav_object and existing more ls where
    p: "parseIcalObjects parseICS (obj_data ob) ''VEVENT'' = Inr (existing # more)"
    and m: "merged = merge_event a existing"
    and ls: "vevent_lines dp clock merged = Inr ls"
    and w: "written = \<lparr>obj_url = event_url, obj_etag = obj_etag ob, obj_data = join [CR, LF] ls\<rparr>"
    by blast
  have flag: "ev_allDay merged = Some False"
    by (simp add: m merge_event_def assms(1))
  then have "ev_allDay merged \<noteq> Some True" by simp
  from vevent_lines_timed [OF this ls] flag w show ?thesis by auto
qed

theorem update_without_all_day_is_timed_witness:
  "(case radicale_update_event (reports [(''u1'', allday_component)]) Date_parse_known clock0
          ''https://dav.example/u/cal/u1.ics'' rename_only [allday_object] of
      Inl e \<Rightarrow> False
    | Inr (m, w) \<Rightarrow>
        ev_allDay m = Some False \<and>
        obj_data w = join [CR, LF]
          [''BEGIN:VCALENDAR'', ''VERSION:2.0'', ''PRODID:-//Radicale MCP//EN'', ''BEGIN:VEVENT'',
           ''UID:u1'', ''DTSTAMP:20260301T090000Z'', ''DTSTART:20260301T000000Z'',
           ''DTEND:20260302T000000Z'', ''SUMMARY:Vacation'', ''LOCATION:Lisbon'', ''END:VEVENT'',
           ''END:VCALENDAR''])"
proof -
  obtain m w where h: "radicale_update_event (reports [(''u1'', allday_component)]) Date_parse_known clock0
          ''https://dav.example/u/cal/u1.ics'' rename_only [allday_object] = Inr (m, w)"
    and w: "obj_data w = join [CR, LF]
          [''BEGIN:VCALENDAR'', ''VERSION:2.0'', ''PRODID:-//Radicale MCP//EN'', ''BEGIN:VEVENT'',
           ''UID:u1'', ''DTSTAMP:20260301T090000Z'', ''DTSTART:20260301T000000Z'',
           ''DTEND:20260302T000000Z'', ''SUMMARY:Vacation'', ''LOCATION:Lisbon'', ''END:VEVENT'',
           ''END:VCALENDAR'']"
  proof -
    have "(case radicale_update_event (reports [(''u1'', allday_component)]) Date_parse_known clock0
          ''https://dav.example/u/cal/u1.ics'' rename_only [allday_object] of
      Inl e \<Rightarrow> False
    | Inr (m, w) \<Rightarrow>
        obj_data w = join [CR, LF]
          [''BEGIN:VCALENDAR'', ''VERSION:2.0'', ''PRODID:-//Radicale MCP//EN'', ''BEGIN:VEVENT'',
           ''UID:u1'', ''DTSTAMP:20260301T090000Z'', ''DTSTART:20260301T000000Z'',
           ''DTEND:20260302T000000Z'', ''SUMMARY:Vacation'', ''LOCATION:Lisbon'', ''END:VEVENT'',
           ''END:VCALENDAR''])"
      by code_simp
    then show ?thesis using that by (auto split: sum.splits)
  qed
  have n: "a_all_day rename_only = None"
    by (simp add: rename_only_def)
  from update_without_all_day_is_timed [OF n h] have "ev_allDay m = Some False"
    by blast
  with h w show ?thesis by simp
qed

section \<open>Updating: the merge\<close>

lemma radicale_update_contact_Inr:
  assumes "radicale_update_contact contact_url a objects = Inr (merged, written)"
  shows "\<exists>ob obs. objects = ob # obs \<and> merged = merge_contact a (parseVCard (obj_data ob)) \<and>
           written = \<lparr>obj_url = contact_url, obj_etag = obj_etag ob, obj_data = buildVCard merged\<rparr>"
  using assms unfolding radicale_update_contact_def Let_def
  by (auto split: list.splits)

text \<open>
  Claim C3, as amended. Whenever an update of an event, a todo or a contact merges, the
  merged record carries the uid of the decoded record, and each field that the decoded
  record has (summary, start, end, description and location of an event; summary,
  description, due, priority and status of a todo; the eight fields of a contact) is the
  caller-supplied value when the request has the field and the decoded value otherwise.
  The all-day flag of an event is the supplied value when the request has it and false
  otherwise, and the \<open>completed\<close> of a todo is derived from the merged status.
\<close>

theorem update_merge_is_sparse_overlay:
  "(radicale_update_event parseICS dp clock event_url a objects = Inr (merged, written) \<longrightarrow>
      (\<exists>ob obs existing more. objects = ob # obs \<and>
         parseIcalObjects parseICS (obj_data ob) ''VEVENT'' = Inr (existing # more) \<and>
         ev_uid merged = o_uid existing \<and>
         ev_summary merged = Some (overlay (map_option Str (a_summary a)) (o_summary existing)) \<and>
         ev_dtstart merged = overlay_opt (a_start a) (o_start existing) \<and>
         ev_dtend merged = overlay_opt (a_end a) (o_end existing) \<and>
         ev_description merged = Some (overlay (map_option Str (a_description a)) (o_description existing)) \<and>
         ev_location merged = Some (overlay (map_option Str (a_location a)) (o_location existing)) \<and>
         ev_allDay merged = Some (overlay (a_all_day a) False))) \<and>
   (radicale_update_todo tparseICS clock ta tobjects = Inr tmerged \<longrightarrow>
      (\<exists>ob obs existing more. tobjects = ob # obs \<and>
         parseIcalObjects tparseICS (obj_data ob) ''VTODO'' = Inr (existing # more) \<and>
         td_uid tmerged = o_uid existing \<and>
         td_summary tmerged = overlay (map_option Str (t_summary ta)) (o_summary existing) \<and>
         td_description tmerged = overlay (map_option Str (t_description ta)) (o_description existing) \<and>
         td_due tmerged = overlay_opt (t_due ta) (o_due existing) \<and>
         td_priority tmerged = overlay (t_priority ta) (o_priority existing) \<and>
         td_status tmerged = overlay (map_option Str (t_status ta)) (o_status existing) \<and>
         td_completed tmerged =
           (if td_status tmerged = Str ''COMPLETED'' then Some (toISOString clock) else None))) \<and>
   (radicale_update_contact contact_url ca cobjects = Inr (cmerged, cwritten) \<longrightarrow>
      (\<exists>ob obs existing. cobjects = ob # obs \<and> existing = parseVCard (obj_data ob) \<and>
         vc_uid cmerged = vc_uid existing \<and>
         vc_full_name cmerged = overlay_opt (u_full_name ca) (vc_full_name existing) \<and>
         vc_first_name cmerged = overlay_opt (u_first_name ca) (vc_first_name existing) \<and>
         vc_last_name cmerged = overlay_opt (u_last_name ca) (vc_last_name existing) \<and>
         vc_email cmerged = overlay_opt (u_email ca) (vc_email existing) \<and>
         vc_phone cmerged = overlay_opt (u_phone ca) (vc_phone existing) \<and>
         vc_org cmerged = overlay_opt (u_org ca) (vc_org existing) \<and>
         vc_title cmerged = overlay_opt (u_title ca) (vc_title existing) \<and>
         vc_note cmerged = overlay_opt (u_note ca) (vc_note existing)))"
proof (intro conjI impI)
  assume "radicale_update_event parseICS dp clock event_url a objects = Inr (merged, written)"
  from radicale_update_event_Inr [OF this] obtain ob :: dav_object and obs existing more where
    "objects = ob # obs"
    "parseIcalObjects parseICS (obj_data ob) ''VEVENT'' = Inr (existing # more)"
    "merged = merge_event a existing"
    by blast
  then show "\<exists>ob obs existing more. objects = ob # obs \<and>
         parseIcalObjects parseICS (obj_data ob) ''VEVENT'' = Inr (existing # more) \<and>
         ev_uid merged = o_uid existing \<and>
         ev_summary merged = Some (overlay (map_option Str (a_summary a)) (o_summary existing)) \<and>
         ev_dtstart merged = overlay_opt (a_start a) (o_start existing) \<and>
         ev_dtend merged = overlay_opt (a_end a) (o_end existing) \<and>
         ev_description merged = Some (overlay (map_option Str (a_description a)) (o_description existing)) \<and>
         ev_location merged = Some (overlay (map_option Str (a_location a)) (o_location existing)) \<and>
         ev_allDay merged = Some (overlay (a_all_day a) False)"
    by (simp add: merge_event_def overlay_def overlay_opt_def split: option.splits)
next
  assume "radicale_update_todo tparseICS clock ta tobjects = Inr tmerged"
  from radicale_update_todo_Inr [OF this] obtain ob :: dav_object and obs existing more where
    "tobjects = ob # obs"
    "parseIcalObjects tparseICS (obj_data ob) ''VTODO'' = Inr (existing # more)"
    "tmerged = merge_todo clock ta existing"
    by blast
  then show "\<exists>ob obs existing more. tobjects = ob # obs \<and>
         parseIcalObjects tparseICS (obj_data ob) ''VTODO'' = Inr (existing # more) \<and>
         td_uid tmerged = o_uid existing \<and>
         td_summary tmerged = overlay (map_option Str (t_summary ta)) (o_summary existing) \<and>
         td_description tmerged = overlay (map_option Str (t_description ta)) (o_description existing) \<and>
         td_due tmerged = overlay_opt (t_due ta) (o_due existing) \<and>
         td_priority tmerged = overlay (t_priority ta) (o_priority existing) \<and>
         td_status tmerged = overlay (map_option Str (t_status ta)) (o_status existing) \<and>
         td_completed tmerged =
           (if td_status tmerged = Str ''COMPLETED'' then Some (toISOString clock) else None)"
    by (simp add: merge_todo_def overlay_def overlay_opt_def Let_def split: option.splits)
next
  assume "radicale_update_contact contact_url ca cobjects = Inr (cmerged, cwritten)"
  from radicale_update_contact_Inr [OF this] obtain ob :: dav_object and obs where
    "cobjects = ob # obs" "cmerged = merge_contact ca (parseVCard (obj_data ob))"
    by blast
  then show "\<exists>ob obs existing. cobjects = ob # obs \<and> existing = parseVCard (obj_data ob) \<and>
         vc_uid cmerged = vc_uid existing \<and>
         vc_full_name cmerged = overlay_opt (u_full_name ca) (vc_full_name existing) \<and>
         vc_first_name cmerged = overlay_opt (u_first_name ca) (vc_first_name existing) \<and>
         vc_last_name cmerged = overlay_opt (u_last_name ca) (vc_last_name existing) \<and>
         vc_email cmerged = overlay_opt (u_email ca) (vc_email existing) \<and>
         vc_phone cmerged = overlay_opt (u_phone ca) (vc_phone existing) \<and>
         vc_org cmerged = overlay_opt (u_org ca) (vc_org existing) \<and>
         vc_title cmerged = overlay_opt (u_title ca) (vc_title existing) \<and>
         vc_note cmerged = overlay_opt (u_note ca) (vc_note existing)"
    by (simp add: merge_contact_def overlay_opt_def)
qed

theorem update_merge_is_sparse_overlay_witness:
  "(case radicale_update_event (reports [(''u1'', allday_component)]) Date_parse_known clock0
          ''https://dav.example/u/cal/u1.ics'' rename_only [allday_object] of
      Inl e \<Rightarrow> False
    | Inr (m, w) \<Rightarrow>
        ev_uid m = Some (Str ''u1'') \<and> ev_summary m = Some (Str ''Vacation'') \<and>
        ev_dtstart m = Some ''2026-03-01T00:00:00.000Z'' \<and>
        ev_dtend m = Some ''2026-03-02T00:00:00.000Z'' \<and> ev_description m = Some (Str []) \<and>
        ev_location m = Some (Str ''Lisbon'') \<and> ev_allDay m = Some False) \<and>
   (case radicale_update_todo (reports [(''t1'', todo_component)]) clock0 complete_todo [todo_object] of
      Inl e \<Rightarrow> False
    | Inr m \<Rightarrow>
        td_uid m = Some (Str ''t1'') \<and> td_summary m = Str ''Buy milk'' \<and> td_description m = Str [] \<and>
        td_due m = Some ''2026-03-02T00:00:00.000Z'' \<and> td_priority m = Some 5 \<and>
        td_status m = Str ''COMPLETED'') \<and>
   (case radicale_update_contact ''https://dav.example/u/book/c1.vcf'' phone_only [contact_object] of
      Inl e \<Rightarrow> False
    | Inr (m, w) \<Rightarrow>
        vc_uid m = Some ''c1'' \<and> vc_full_name m = Some ''Ann Lee'' \<and>
        vc_first_name m = Some ''Ann'' \<and> vc_last_name m = Some ''Lee'' \<and>
        vc_email m = Some ''ann@example.org'' \<and> vc_phone m = Some ''+351 555 0100'' \<and>
        vc_org m = None \<and> vc_title m = None \<and> vc_note m = None)"
proof -
  let ?E = "radicale_update_event (reports [(''u1'', allday_component)]) Date_parse_known clock0
          ''https://dav.example/u/cal/u1.ics'' rename_only [allday_object]"
  let ?T = "radicale_update_todo (reports [(''t1'', todo_component)]) clock0 complete_todo [todo_object]"
  let ?C = "radicale_update_contact ''https://dav.example/u/book/c1.vcf'' phone_only [contact_object]"
  have e: "(case ?E of Inl e \<Rightarrow> False | Inr (m, w) \<Rightarrow>
        ev_uid m = Some (Str ''u1'') \<and> ev_summary m = Some (Str ''Vacation'') \<and>
        ev_dtstart m = Some ''2026-03-01T00:00:00.000Z'' \<and>
        ev_dtend m = Some ''2026-03-02T00:00:00.000Z'' \<and> ev_description m = Some (Str []) \<and>
        ev_location m = Some (Str ''Lisbon'') \<and> ev_allDay m = Some False)"
    by code_simp
  have t: "(case ?T of Inl e \<Rightarrow> False | Inr m \<Rightarrow>
        td_uid m = Some (Str ''t1'') \<and> td_summary m = Str ''Buy milk'' \<and> td_description m = Str [] \<and>
        td_due m = Some ''2026-03-02T00:00:00.000Z'' \<and> td_priority m = Some 5 \<and>
        td_status m = Str ''COMPLETED'')"
    by code_simp
  have c: "(case ?C of Inl e \<Rightarrow> False | Inr (m, w) \<Rightarrow>
        vc_uid m = Some ''c1'' \<and> vc_full_name m = Some ''Ann Lee'' \<and>
        vc_first_name m = Some ''Ann'' \<and> vc_last_name m = Some ''Lee'' \<and>
        vc_email m = Some ''ann@example.org'' \<and> vc_phone m = Some ''+351 555 0100'' \<and>
        vc_org m = None \<and> vc_title m = None \<and> vc_note m = None)"
    by code_simp
  from e obtain m w where he: "?E = Inr (m, w)" by (auto split: sum.splits)
  from t obtain tm where ht: "?T = Inr tm" by (auto split: sum.splits)
  from c obtain cm cw where hc: "?C = Inr (cm, cw)" by (auto split: sum.splits)
  note inst = update_merge_is_sparse_overlay
    [where parseICS = "reports [(''u1'', allday_component)]" and dp = Date_parse_known
       and clock = clock0 and event_url = "''https://dav.example/u/cal/u1.ics''"
       and a = rename_only and objects = "[allday_object]" and merged = m and written = w
       and tparseICS = "reports [(''t1'', todo_component)]" and ta = complete_todo
       and tobjects = "[todo_object]" and tmerged = tm
       and contact_url = "''https://dav.example/u/book/c1.vcf''" and ca = phone_only
       and cobjects = "[contact_object]" and cmerged = cm and cwritten = cw]
  from inst [THEN conjunct1, rule_format, OF he]
  have "ev_allDay m = Some (overlay (a_all_day rename_only) False)"
    by (elim exE conjE)
  moreover from inst [THEN conjunct2, THEN conjunct1, rule_format, OF ht]
  have "\<exists>existing :: int option ical_object.
          td_status tm = overlay (map_option Str (t_status complete_todo)) (o_status existing)"
    by (elim exE conjE) (rule exI)
  moreover from inst [THEN conjunct2, THEN conjunct2, rule_format, OF hc]
  have "vc_phone cm = overlay_opt (u_phone phone_only) (vc_phone (parseVCard (obj_data contact_object)))"
    by (elim exE conjE) simp
  ultimately show ?thesis using e t c by (intro conjI)
qed

text \<open>
  The claim as stated fails for the updatable field \<open>all_day\<close>: the event stored as an
  all-day event (its text is what \<^verbatim>\<open>buildVEvent\<close> gives for a record whose flag is true) and
  updated with a summary alone is merged with the flag false, not with its existing value.
  It fails as well for \<open>completed\<close>, a field outside the update schema: a todo completed on
  2026-01-01 and updated with a summary alone is merged with the current instant.
\<close>

theorem update_merge_counterexample:
  "buildVEvent Date_parse_known clock0 allday_event = Inr (obj_data allday_object) \<and>
   ev_allDay allday_event = Some True \<and> a_all_day rename_only = None \<and>
   (case radicale_update_event (reports [(''u1'', allday_component)]) Date_parse_known clock0
          ''https://dav.example/u/cal/u1.ics'' rename_only [allday_object] of
      Inl e \<Rightarrow> False
    | Inr (m, w) \<Rightarrow>
        ev_allDay m = Some False \<and>
        ev_allDay m \<noteq> overlay_opt (a_all_day rename_only) (ev_allDay allday_event)) \<and>
   parseIcalObjects (reports [(''t1'', done_component)]) (obj_data todo_object) ''VTODO'' =
     Inr [\<lparr>o_uid = Some (Str ''t1''), o_summary = Str ''Buy milk'', o_description = Str [], o_start = None,
           o_end = None, o_location = Str [], o_status = Str ''COMPLETED'', o_priority = Some 5,
           o_completed = Some ''2026-01-01T00:00:00.000Z'',
           o_due = Some ''2026-03-02T00:00:00.000Z''\<rparr>] \<and>
   (case radicale_update_todo (reports [(''t1'', done_component)]) clock0 retitle_only [todo_object] of
      Inl e \<Rightarrow> False
    | Inr m \<Rightarrow>
        td_status m = Str ''COMPLETED'' \<and> td_completed m = Some ''2026-03-01T09:00:00.500Z'')"
  by code_simp

section \<open>Decoding a contact\<close>

text \<open>Unfolding: a line break CR LF followed by a space disappears, wherever it stands.\<close>

lemma unfold_lines_Cons_other:
  "c \<noteq> CR \<Longrightarrow> unfold_lines (c # cs) = c # unfold_lines cs"
  by (cases cs; cases "tl cs") auto

lemma unfold_lines_append:
  "\<not> suffix [CR] a \<Longrightarrow> \<not> suffix [CR, LF] a \<Longrightarrow>
   unfold_lines (a @ b) = unfold_lines a @ unfold_lines b"
proof (induction a rule: unfold_lines.induct)
  case 1
  show ?case by simp
next
  case (2 x)
  then have "x \<noteq> CR" by (auto simp: suffix_Cons)
  then show ?case by (simp add: unfold_lines_Cons_other)
next
  case (3 x y)
  then have y: "y \<noteq> CR" and xy: "\<not> (x = CR \<and> y = LF)" by (auto simp: suffix_Cons)
  show ?case
  proof (cases b)
    case Nil
    then show ?thesis by simp
  next
    case (Cons z bs)
    with y xy show ?thesis by (auto simp: unfold_lines_Cons_other)
  qed
next
  case (4 x y z cs)
  show ?case
  proof (cases "x = CR \<and> y = LF \<and> z = CHR '' ''")
    case True
    show ?thesis
    proof (cases cs)
      case Nil
      with True show ?thesis by simp
    next
      case (Cons d ds)
      with 4 True have "unfold_lines (cs @ b) = unfold_lines cs @ unfold_lines b"
        by (auto simp: suffix_Cons)
      with True show ?thesis by simp
    qed
  next
    case False
    with 4 have "unfold_lines ((y # z # cs) @ b) = unfold_lines (y # z # cs) @ unfold_lines b"
      by (auto simp: suffix_Cons)
    with False show ?thesis by auto
  qed
qed

lemma unfold_lines_continuation:
  "unfold_lines (a @ [CR, LF, CHR '' ''] @ b) = unfold_lines a @ unfold_lines b"
  by (induction a rule: unfold_lines.induct) auto

lemma parseVCard_continuation:
  assumes "\<not> suffix [CR] a" and "\<not> suffix [CR, LF] a"
  shows "parseVCard (a @ [CR, LF, CHR '' ''] @ b) = parseVCard (a @ b)"
  by (simp only: parseVCard_def unfold_lines_continuation unfold_lines_append [OF assms])

lemma match_line_plain:
  assumes "key \<noteq> []" and "CHR '':'' \<notin> set key" and "CHR '';'' \<notin> set key"
    and "CR \<notin> set v" and "LF \<notin> set v"
  shows "match_line (key @ '':'' @ v) = Some (key, v)"
proof -
  have t: "takeWhile (\<lambda>c. c \<noteq> CHR '':'' \<and> c \<noteq> CHR '';'') (key @ CHR '':'' # v) = key"
    using assms by (intro takeWhile_tail [THEN trans] ) (auto simp: takeWhile_eq_all_conv)
  have d: "dropWhile (\<lambda>c. c \<noteq> CHR '':'' \<and> c \<noteq> CHR '';'') (key @ CHR '':'' # v) = CHR '':'' # v"
    using assms by (subst dropWhile_append3) (auto simp: dropWhile_eq_Nil_conv)
  show ?thesis
    using assms by (simp add: match_line_def t d)
qed

text \<open>A line without a match and a line with an unrecognised key leave the result as it is.\<close>

lemma process_line_no_match: "match_line line = None \<Longrightarrow> process_line result line = result"
  by (simp add: process_line_def)

lemma process_line_unrecognised:
  assumes "match_line line = Some (k, v)"
    and "toUpperCase k \<notin> {''FN'', ''N'', ''EMAIL'', ''TEL'', ''ORG'', ''TITLE'', ''NOTE'', ''UID''}"
  shows "process_line result line = result"
  using assms by (simp add: process_line_def Let_def)

lemma process_line_recognised:
  assumes "match_line line = Some (k, v)"
  shows "(toUpperCase k = ''FN'' \<longrightarrow> process_line result line = result\<lparr>vc_full_name := Some v\<rparr>) \<and>
         (toUpperCase k = ''N'' \<longrightarrow> process_line result line =
            result\<lparr>vc_last_name := Some (part_or_empty (split_char (CHR '';'') v) 0),
                   vc_first_name := Some (part_or_empty (split_char (CHR '';'') v) 1)\<rparr>) \<and>
         (toUpperCase k = ''EMAIL'' \<longrightarrow> process_line result line = result\<lparr>vc_email := Some v\<rparr>) \<and>
         (toUpperCase k = ''TEL'' \<longrightarrow> process_line result line = result\<lparr>vc_phone := Some v\<rparr>) \<and>
         (toUpperCase k = ''ORG'' \<longrightarrow> process_line result line = result\<lparr>vc_org := Some v\<rparr>) \<and>
         (toUpperCase k = ''TITLE'' \<longrightarrow> process_line result line = result\<lparr>vc_title := Some v\<rparr>) \<and>
         (toUpperCase k = ''NOTE'' \<longrightarrow> process_line result line = result\<lparr>vc_note := Some v\<rparr>) \<and>
         (toUpperCase k = ''UID'' \<longrightarrow> process_line result line = result\<lparr>vc_uid := Some v\<rparr>)"
  using assms by (simp add: process_line_def Let_def)

text \<open>
  Claim C8. The claim is right about what decoding a vCard is meant to do, and the code
  does it when the line breaks are CR LF (\<open>parseVCard_continuation\<close>, \<open>match_line_plain\<close>,
  \<open>process_line_recognised\<close>, \<open>process_line_unrecognised\<close>). The code also splits lines at a bare
  LF, and there it does not unfold: the text \<^verbatim>\<open>NOTE:hello\<close>, LF, \<^verbatim>\<open> world\<close> has the two lines
  \<^verbatim>\<open>NOTE:hello\<close> and \<^verbatim>\<open> world\<close>, the second begins with a single space, and it is not joined to the
  first but dropped, so the note is "hello"; with CR LF the note is "helloworld".
\<close>

theorem parseVCard_bare_LF_continuation:
  "split_lines (unfold_lines (''NOTE:hello'' @ [LF] @ '' world'')) = [''NOTE:hello'', '' world''] \<and>
   vc_note (parseVCard (''NOTE:hello'' @ [LF] @ '' world'')) = Some ''hello'' \<and>
   vc_note (parseVCard (''NOTE:hello'' @ [CR, LF] @ '' world'')) = Some ''helloworld''"
  by code_simp

section \<open>All-day events\<close>

lemma is_digit_not_hyphen: "is_digit c \<Longrightarrow> c \<noteq> CHR ''-''"
  by (auto simp: is_digit_def)

lemma length10_cases:
  assumes "10 \<le> length s"
  obtains a b c d e f g h i j rest where "s = a # b # c # d # e # f # g # h # i # j # rest"
proof -
  from assms obtain a s1 where "s = a # s1" "9 \<le> length s1" by (cases s) auto
  moreover then obtain b s2 where "s1 = b # s2" "8 \<le> length s2" by (cases s1) auto
  moreover then obtain c s3 where "s2 = c # s3" "7 \<le> length s3" by (cases s2) auto
  moreover then obtain d s4 where "s3 = d # s4" "6 \<le> length s4" by (cases s3) auto
  moreover then obtain e s5 where "s4 = e # s5" "5 \<le> length s5" by (cases s4) auto
  moreover then obtain f s6 where "s5 = f # s6" "4 \<le> length s6" by (cases s5) auto
  moreover then obtain g s7 where "s6 = g # s7" "3 \<le> length s7" by (cases s6) auto
  moreover then obtain h s8 where "s7 = h # s8" "2 \<le> length s8" by (cases s7) auto
  moreover then obtain i s9 where "s8 = i # s9" "1 \<le> length s9" by (cases s8) auto
  moreover then obtain j rest where "s9 = j # rest" by (cases s9) auto
  ultimately show ?thesis using that by blast
qed

lemma isoToIcalDate_iso:
  assumes "iso_date_prefix s"
  shows "isoToIcalDate (Some s) = Inr (date_digits s)"
    and "length (date_digits s) = 8" and "list_all is_digit (date_digits s)"
proof -
  from assms have "10 \<le> length s" by (simp add: iso_date_prefix_def)
  then obtain a b c d e f g h i j rest where s: "s = a # b # c # d # e # f # g # h # i # j # rest"
    by (rule length10_cases)
  from assms show "isoToIcalDate (Some s) = Inr (date_digits s)"
    by (simp add: s iso_date_prefix_def isoToIcalDate_def date_digits_def is_digit_not_hyphen)
  from assms show "length (date_digits s) = 8"
    by (simp add: s date_digits_def)
  from assms show "list_all is_digit (date_digits s)"
    by (simp add: s iso_date_prefix_def date_digits_def)
qed

lemma length_toISOString: "24 \<le> length (toISOString t)"
  by (simp add: toISOString_def Let_def pad2_def pad3_def pad4_def pad6_def split: prod.splits)

lemma toISOString_not_date_only: "\<not> is_date_only (toISOString t)"
  using length_toISOString [of t] by (simp add: is_date_only_def)

lemma vevent_lines_allDay:
  assumes "ev_allDay r = Some True" and "ev_dtstart r = Some s"
  shows "\<exists>ls. vevent_lines dp clock r = Inr ls \<and>
           ls ! 6 = ''DTSTART;VALUE=DATE:'' @ take 8 (filter (\<lambda>c. c \<noteq> CHR ''-'') s) \<and>
           (\<forall>e. ev_dtend r = Some e \<and> e \<noteq> [] \<longrightarrow>
              ls ! 7 = ''DTEND;VALUE=DATE:'' @ take 8 (filter (\<lambda>c. c \<noteq> CHR ''-'') e)) \<and>
           (\<forall>l\<in>set ls. \<not> prefix ''DTSTART:'' l \<and> \<not> prefix ''DTEND:'' l)"
proof (cases "truthy (ev_dtend r)")
  case False
  then have "\<forall>e. \<not> (ev_dtend r = Some e \<and> e \<noteq> [])" by (auto simp: truthy_def)
  with False assms show ?thesis
    by (auto simp: vevent_lines_def Let_def isoToIcalDate_def push_value_def nth_append)
next
  case True
  then obtain e where "ev_dtend r = Some e" "e \<noteq> []"
    by (auto simp: truthy_def split: option.splits)
  with True assms show ?thesis
    by (auto simp: vevent_lines_def Let_def isoToIcalDate_def push_value_def nth_append)
qed

text \<open>
  Claim C4, as amended. For every event record with \<open>allDay\<close> true whose start begins with a
  calendar date \<^verbatim>\<open>YYYY-MM-DD\<close>, the encoded DTSTART carries the DATE form, exactly the eight
  digits of that date with no time or zone suffix, and so does DTEND for such an end; no
  DATE-TIME line is emitted, whatever time the strings carry, and without the flag no
  DATE line is: the flag alone decides. Decoding does not give a date-only value: a date
  that the parser reports as a \<^verbatim>\<open>Date\<close> object decodes to its full UTC date-time string, and
  a date it reports as a string decodes to that string.
\<close>

theorem allday_encoding_and_decoding:
  assumes "ev_allDay r = Some True" and "ev_dtstart r = Some s" and "iso_date_prefix s"
  shows "(\<exists>ls. vevent_lines dp clock r = Inr ls \<and> buildVEvent dp clock r = Inr (join [CR, LF] ls) \<and>
            ls ! 6 = ''DTSTART;VALUE=DATE:'' @ date_digits s \<and>
            (\<forall>e. ev_dtend r = Some e \<and> iso_date_prefix e \<longrightarrow>
               ls ! 7 = ''DTEND;VALUE=DATE:'' @ date_digits e) \<and>
            (\<forall>l\<in>set ls. \<not> prefix ''DTSTART:'' l \<and> \<not> prefix ''DTEND:'' l)) \<and>
         length (date_digits s) = 8 \<and> list_all is_digit (date_digits s) \<and>
         (\<forall>e. iso_date_prefix e \<longrightarrow> length (date_digits e) = 8 \<and> list_all is_digit (date_digits e)) \<and>
         (\<forall>r' ls'. ev_allDay r' \<noteq> Some True \<and> vevent_lines dp clock r' = Inr ls' \<longrightarrow>
            (\<forall>l\<in>set ls'. \<not> prefix ''DTSTART;VALUE=DATE'' l \<and> \<not> prefix ''DTEND;VALUE=DATE'' l)) \<and>
         (\<forall>t. icalDateToIso (DateObj (Some t)) = Inr (Some (toISOString t)) \<and>
              \<not> is_date_only (toISOString t)) \<and>
         (\<forall>x. x \<noteq> [] \<longrightarrow> icalDateToIso (DateText x) = Inr (Some x))"
proof -
  from vevent_lines_allDay [OF assms(1,2), of dp clock] obtain ls where
    ls: "vevent_lines dp clock r = Inr ls"
    and s6: "ls ! 6 = ''DTSTART;VALUE=DATE:'' @ take 8 (filter (\<lambda>c. c \<noteq> CHR ''-'') s)"
    and s7: "\<forall>e. ev_dtend r = Some e \<and> e \<noteq> [] \<longrightarrow>
              ls ! 7 = ''DTEND;VALUE=DATE:'' @ take 8 (filter (\<lambda>c. c \<noteq> CHR ''-'') e)"
    and no: "\<forall>l\<in>set ls. \<not> prefix ''DTSTART:'' l \<and> \<not> prefix ''DTEND:'' l"
    by blast
  have dd: "take 8 (filter (\<lambda>c. c \<noteq> CHR ''-'') e) = date_digits e" if "iso_date_prefix e" for e
    using isoToIcalDate_iso(1) [OF that] by (simp add: isoToIcalDate_def)
  have ne: "e \<noteq> []" if "iso_date_prefix e" for e
    using that by (auto simp: iso_date_prefix_def)
  have "\<exists>ls. vevent_lines dp clock r = Inr ls \<and> buildVEvent dp clock r = Inr (join [CR, LF] ls) \<and>
            ls ! 6 = ''DTSTART;VALUE=DATE:'' @ date_digits s \<and>
            (\<forall>e. ev_dtend r = Some e \<and> iso_date_prefix e \<longrightarrow>
               ls ! 7 = ''DTEND;VALUE=DATE:'' @ date_digits e) \<and>
            (\<forall>l\<in>set ls. \<not> prefix ''DTSTART:'' l \<and> \<not> prefix ''DTEND:'' l)"
    using ls s6 s7 no dd [OF assms(3)] dd ne by (auto simp: buildVEvent_def)
  moreover have "\<forall>r' ls'. ev_allDay r' \<noteq> Some True \<and> vevent_lines dp clock r' = Inr ls' \<longrightarrow>
            (\<forall>l\<in>set ls'. \<not> prefix ''DTSTART;VALUE=DATE'' l \<and> \<not> prefix ''DTEND;VALUE=DATE'' l)"
    using vevent_lines_timed by blast
  moreover have "\<forall>t. icalDateToIso (DateObj (Some t)) = Inr (Some (toISOString t)) \<and>
              \<not> is_date_only (toISOString t)"
    by (simp add: icalDateToIso_def toISOString_not_date_only)
  moreover have "\<forall>x. x \<noteq> [] \<longrightarrow> icalDateToIso (DateText x) = Inr (Some x)"
    by (simp add: icalDateToIso_def)
  ultimately show ?thesis
    using isoToIcalDate_iso(2,3) [OF assms(3)] isoToIcalDate_iso(2,3) by blast
qed

theorem allday_encoding_and_decoding_witness:
  "buildVEvent Date_parse_known clock0 allday_event = Inr allday_text \<and>
   date_digits ''2026-03-01'' = ''20260301'' \<and> date_digits ''2026-03-02'' = ''20260302'' \<and>
   icalDateToIso (DateObj (Some 1772323200000)) = Inr (Some ''2026-03-01T00:00:00.000Z'')"
proof -
  have a: "ev_allDay allday_event = Some True" and b: "ev_dtstart allday_event = Some ''2026-03-01''"
    by (simp_all add: allday_event_def)
  have c: "iso_date_prefix ''2026-03-01''"
    by code_simp
  have d: "buildVEvent Date_parse_known clock0 allday_event = Inr allday_text"
    by code_simp
  have e: "date_digits ''2026-03-01'' = ''20260301''" "date_digits ''2026-03-02'' = ''20260302''"
    by (simp_all add: date_digits_def)
  have f: "toISOString 1772323200000 = ''2026-03-01T00:00:00.000Z''"
    by code_simp
  from allday_encoding_and_decoding [OF a b c, of Date_parse_known clock0]
  have "icalDateToIso (DateObj (Some 1772323200000)) = Inr (Some (toISOString 1772323200000))"
    by blast
  with d e f show ?thesis by simp
qed

text \<open>
  The claim as stated fails in its last part: the all-day event is encoded with the DATE
  form, node-ical reports its dates as \<^verbatim>\<open>Date\<close> objects, and decoding gives the date-time
  strings \<^verbatim>\<open>2026-03-01T00:00:00.000Z\<close> and \<^verbatim>\<open>2026-03-02T00:00:00.000Z\<close>, not date-only values.
\<close>

theorem allday_decoding_counterexample:
  "buildVEvent Date_parse_known clock0 allday_event = Inr allday_text \<and>
   parseIcalObjects (reports [(''u1'', allday_component)]) allday_text ''VEVENT'' =
     Inr [\<lparr>o_uid = Some (Str ''u1''), o_summary = Str ''Holiday'', o_description = Str [],
           o_start = Some ''2026-03-01T00:00:00.000Z'', o_end = Some ''2026-03-02T00:00:00.000Z'',
           o_location = Str ''Lisbon'', o_status = Str [], o_priority = None, o_completed = None,
           o_due = None\<rparr>] \<and>
   \<not> is_date_only ''2026-03-01T00:00:00.000Z'' \<and> \<not> is_date_only ''2026-03-02T00:00:00.000Z'' \<and>
   is_date_only ''2026-03-01''"
  by code_simp

section \<open>The lines of a serialized text\<close>

text \<open>Lines without line breaks, joined by CR LF, are the lines of the joined text.\<close>

lemma split_lines_Cons_plain:
  "c \<noteq> LF \<Longrightarrow> c \<noteq> CR \<Longrightarrow>
   split_lines (c # s) = (case split_lines s of l # ls \<Rightarrow> (c # l) # ls | [] \<Rightarrow> [[c]])"
  by (cases s) auto

lemma split_lines_plain: "no_line_break l \<Longrightarrow> split_lines l = [l]"
  by (induction l) (auto simp: no_line_break_def split_lines_Cons_plain)

lemma split_lines_first:
  "no_line_break l \<Longrightarrow> split_lines (l @ CR # LF # rest) = l # split_lines rest"
  by (induction l) (auto simp: no_line_break_def split_lines_Cons_plain)

lemma split_lines_join:
  "ls \<noteq> [] \<Longrightarrow> \<forall>l\<in>set ls. no_line_break l \<Longrightarrow> split_lines (join [CR, LF] ls) = ls"
proof (induction "[CR, LF]" ls rule: join.induct)
  case 1
  then show ?case by simp
next
  case (2 x)
  then show ?case by (simp add: split_lines_plain)
next
  case (3 x y ys)
  then show ?case by (simp add: split_lines_first)
qed

lemma is_digit_digit_char: "is_digit (digit_char n)"
  unfolding is_digit_def digit_char_def by (rule nth_mem) simp

lemma no_line_break_append [simp]:
  "no_line_break (a @ b) = (no_line_break a \<and> no_line_break b)"
  by (auto simp: no_line_break_def)

lemma no_line_break_Cons [simp]:
  "no_line_break (c # s) = (c \<noteq> CR \<and> c \<noteq> LF \<and> no_line_break s)"
  by (auto simp: no_line_break_def)

lemma no_line_break_Nil [simp]: "no_line_break []"
  by (simp add: no_line_break_def)

lemma no_line_break_digit: "digit_char n \<noteq> CR \<and> digit_char n \<noteq> LF"
  using is_digit_digit_char [of n] by (auto simp: is_digit_def)

lemma no_line_break_pads:
  "no_line_break (pad2 n)" "no_line_break (pad3 n)" "no_line_break (pad4 n)" "no_line_break (pad6 n)"
  using no_line_break_digit
  by (auto simp: pad2_def pad3_def pad4_def pad6_def)

lemma no_line_break_toISOString: "no_line_break (toISOString t)"
  by (simp add: toISOString_def Let_def no_line_break_pads split: prod.splits)

lemma set_strip_millis: "set (strip_millis s) \<subseteq> set s"
proof (induction s)
  case Nil
  show ?case by simp
next
  case (Cons c cs)
  have "set (drop 3 cs) \<subseteq> set cs" by (rule set_drop_subset)
  with Cons show ?case by auto
qed

lemma no_line_break_ical_stamp: "no_line_break (ical_stamp t)"
proof -
  have "set (ical_stamp t) \<subseteq> set (toISOString t)"
    unfolding ical_stamp_def using set_strip_millis by fastforce
  with no_line_break_toISOString [of t] show ?thesis
    by (auto simp: no_line_break_def)
qed

section \<open>Encoding a contact: the formatted name\<close>

lemma FN_value_not_empty: "FN_value c \<noteq> []"
  by (auto simp: FN_value_def truthy_def or_empty_def Let_def split: option.splits)

lemma FN_value_no_line_break:
  assumes "no_line_break (or_empty (vc_full_name c))"
    and "no_line_break (or_empty (vc_first_name c))"
    and "no_line_break (or_empty (vc_last_name c))"
  shows "no_line_break (FN_value c)"
  using assms by (auto simp: FN_value_def Let_def truthy_def or_empty_def split: option.splits)

lemma push_if_no_line_break:
  "no_line_break (or_empty v) \<Longrightarrow> no_line_break k \<Longrightarrow> \<forall>l\<in>set (push_if k v). no_line_break l"
  by (simp add: push_if_def)

lemma vcard_lines_no_line_break:
  assumes "plain_contact c"
  shows "\<forall>l\<in>set (vcard_lines c). no_line_break l"
proof -
  have u: "no_line_break (template (vc_uid c))"
    using assms by (auto simp: plain_contact_def template_def or_empty_def split: option.splits)
  have f: "no_line_break (FN_value c)"
    using assms by (intro FN_value_no_line_break) (simp_all add: plain_contact_def)
  have n: "no_line_break (or_empty (vc_last_name c))" "no_line_break (or_empty (vc_first_name c))"
    using assms by (simp_all add: plain_contact_def)
  have p: "\<forall>l\<in>set (push_if ''EMAIL:'' (vc_email c)). no_line_break l"
      "\<forall>l\<in>set (push_if ''TEL:'' (vc_phone c)). no_line_break l"
      "\<forall>l\<in>set (push_if ''ORG:'' (vc_org c)). no_line_break l"
      "\<forall>l\<in>set (push_if ''TITLE:'' (vc_title c)). no_line_break l"
      "\<forall>l\<in>set (push_if ''NOTE:'' (vc_note c)). no_line_break l"
    using assms by (simp_all add: plain_contact_def push_if_def)
  from u f n p show ?thesis
    by (auto simp: vcard_lines_def)
qed

lemma split_lines_buildVCard:
  assumes "plain_contact c"
  shows "split_lines (buildVCard c) = vcard_lines c"
  unfolding buildVCard_def
  using vcard_lines_no_line_break [OF assms]
  by (intro split_lines_join) (simp_all add: vcard_lines_def)

text \<open>No line of a card begins with a space, so that unfolding leaves the text as it is.\<close>

lemma unfold_lines_no_CR: "CR \<notin> set s \<Longrightarrow> unfold_lines s = s"
  by (induction s) (auto simp: unfold_lines_Cons_other)

lemma unfold_lines_line_break:
  assumes "\<not> prefix '' '' s"
  shows "unfold_lines (CR # LF # s) = CR # LF # unfold_lines s"
proof (cases s)
  case Nil
  then show ?thesis by simp
next
  case (Cons z zs)
  with assms have "z \<noteq> CHR '' ''" by simp
  with Cons show ?thesis by (simp add: unfold_lines_Cons_other)
qed

lemma join_not_space:
  assumes "\<forall>l\<in>set ls. \<not> prefix '' '' l" and "\<forall>l\<in>set ls. no_line_break l"
  shows "\<not> prefix '' '' (join [CR, LF] ls) \<and> unfold_lines (join [CR, LF] ls) = join [CR, LF] ls"
  using assms
proof (induction "[CR, LF]" ls rule: join.induct)
  case 1
  show ?case by simp
next
  case (2 x)
  then show ?case by (simp add: unfold_lines_no_CR no_line_break_def)
next
  case (3 x y ys)
  then have x: "\<not> prefix '' '' x" "CR \<notin> set x"
    and ih: "\<not> prefix '' '' (join [CR, LF] (y # ys))"
      "unfold_lines (join [CR, LF] (y # ys)) = join [CR, LF] (y # ys)"
    by (simp_all add: no_line_break_def)
  from x(2) have s: "\<not> suffix [CR] x" "\<not> suffix [CR, LF] x"
    by (auto simp: suffix_def)
  have "unfold_lines (x @ CR # LF # join [CR, LF] (y # ys)) =
        unfold_lines x @ unfold_lines (CR # LF # join [CR, LF] (y # ys))"
    by (rule unfold_lines_append [OF s])
  also have "\<dots> = x @ CR # LF # join [CR, LF] (y # ys)"
    by (simp only: unfold_lines_no_CR [OF x(2)] unfold_lines_line_break [OF ih(1)] ih(2))
  finally have "unfold_lines (join [CR, LF] (x # y # ys)) = join [CR, LF] (x # y # ys)"
    by simp
  moreover from x(1) have "\<not> prefix '' '' (join [CR, LF] (x # y # ys))"
    by (cases x) simp_all
  ultimately show ?case by simp
qed

lemma vcard_lines_not_space: "\<forall>l\<in>set (vcard_lines c). \<not> prefix '' '' l"
  by (auto simp: vcard_lines_def push_if_def)

text \<open>Reading the lines of a card: the line FN sets the full name, and no later line touches it.\<close>

lemma process_line_other:
  assumes "match_line l = Some (k, v)" and "toUpperCase k \<noteq> ''FN''"
  shows "vc_full_name (process_line r l) = vc_full_name r"
  using assms by (simp add: process_line_def Let_def)

lemma foldl_process_line_other:
  assumes "\<forall>l\<in>set ls. \<exists>k v. match_line l = Some (k, v) \<and> toUpperCase k \<noteq> ''FN''"
  shows "vc_full_name (foldl process_line r ls) = vc_full_name r"
  using assms
proof (induction ls arbitrary: r)
  case Nil
  show ?case by simp
next
  case (Cons l ls)
  then obtain k v where "match_line l = Some (k, v)" "toUpperCase k \<noteq> ''FN''"
    by auto
  from process_line_other [OF this] Cons show ?case by simp
qed

lemma toUpperCase_keys:
  "toUpperCase ''FN'' = ''FN''" "toUpperCase ''N'' \<noteq> ''FN''" "toUpperCase ''EMAIL'' \<noteq> ''FN''"
  "toUpperCase ''TEL'' \<noteq> ''FN''" "toUpperCase ''ORG'' \<noteq> ''FN''" "toUpperCase ''TITLE'' \<noteq> ''FN''"
  "toUpperCase ''NOTE'' \<noteq> ''FN''" "toUpperCase ''END'' \<noteq> ''FN''"
  by code_simp+

lemma push_if_other:
  assumes "no_line_break (or_empty v)" and "key \<noteq> []" and "CHR '':'' \<notin> set key"
    and "CHR '';'' \<notin> set key" and "toUpperCase key \<noteq> ''FN''"
  shows "\<forall>l\<in>set (push_if (key @ '':'') v). \<exists>k w. match_line l = Some (k, w) \<and> toUpperCase k \<noteq> ''FN''"
proof (cases "truthy v")
  case False
  then show ?thesis by (simp add: push_if_def)
next
  case True
  from assms(1) have "CR \<notin> set (or_empty v)" "LF \<notin> set (or_empty v)"
    by (simp_all add: no_line_break_def)
  from match_line_plain [OF assms(2-4) this] assms(5) True show ?thesis
    by (simp add: push_if_def)
qed

lemma parseVCard_buildVCard_full_name:
  assumes "plain_contact c"
  shows "vc_full_name (parseVCard (buildVCard c)) = Some (FN_value c)"
proof -
  let ?head = "[''BEGIN:VCARD'', ''VERSION:3.0'', ''UID:'' @ template (vc_uid c)]"
  let ?fn = "''FN:'' @ FN_value c"
  let ?rest = "[''N:'' @ or_empty (vc_last_name c) @ '';'' @ or_empty (vc_first_name c) @ '';;;''] @
     push_if ''EMAIL:'' (vc_email c) @ push_if ''TEL:'' (vc_phone c) @ push_if ''ORG:'' (vc_org c) @
     push_if ''TITLE:'' (vc_title c) @ push_if ''NOTE:'' (vc_note c) @ [''END:VCARD'']"
  have ls: "vcard_lines c = ?head @ ?fn # ?rest"
    by (simp add: vcard_lines_def)
  have tx: "split_lines (unfold_lines (buildVCard c)) = vcard_lines c"
    using join_not_space [OF vcard_lines_not_space [of c] vcard_lines_no_line_break [OF assms]]
      split_lines_buildVCard [OF assms]
    by (simp add: buildVCard_def)
  have f: "no_line_break (FN_value c)"
    using assms by (intro FN_value_no_line_break) (simp_all add: plain_contact_def)
  then have "match_line (''FN'' @ '':'' @ FN_value c) = Some (''FN'', FN_value c)"
    by (intro match_line_plain) (simp_all add: no_line_break_def)
  then have fn: "\<And>r. process_line r ?fn = r\<lparr>vc_full_name := Some (FN_value c)\<rparr>"
    using process_line_recognised [of ?fn "''FN''" "FN_value c"] toUpperCase_keys(1) by simp
  have n: "no_line_break (or_empty (vc_last_name c) @ '';'' @ or_empty (vc_first_name c) @ '';;;'')"
    using assms by (simp add: plain_contact_def)
  then have "match_line (''N'' @ '':'' @ or_empty (vc_last_name c) @ '';'' @ or_empty (vc_first_name c) @ '';;;'') =
      Some (''N'', or_empty (vc_last_name c) @ '';'' @ or_empty (vc_first_name c) @ '';;;'')"
    by (intro match_line_plain) (simp_all add: no_line_break_def)
  then have nline: "\<exists>k w. match_line (''N:'' @ or_empty (vc_last_name c) @ '';'' @ or_empty (vc_first_name c) @ '';;;'') =
      Some (k, w) \<and> toUpperCase k \<noteq> ''FN''"
    using toUpperCase_keys(2) by simp
  have "match_line (''END'' @ '':'' @ ''VCARD'') = Some (''END'', ''VCARD'')"
    by (intro match_line_plain) simp_all
  then have eline: "\<exists>k w. match_line ''END:VCARD'' = Some (k, w) \<and> toUpperCase k \<noteq> ''FN''"
    using toUpperCase_keys(8) by simp
  have p: "\<forall>l\<in>set (push_if (''EMAIL'' @ '':'') (vc_email c)). \<exists>k w. match_line l = Some (k, w) \<and> toUpperCase k \<noteq> ''FN''"
      "\<forall>l\<in>set (push_if (''TEL'' @ '':'') (vc_phone c)). \<exists>k w. match_line l = Some (k, w) \<and> toUpperCase k \<noteq> ''FN''"
      "\<forall>l\<in>set (push_if (''ORG'' @ '':'') (vc_org c)). \<exists>k w. match_line l = Some (k, w) \<and> toUpperCase k \<noteq> ''FN''"
      "\<forall>l\<in>set (push_if (''TITLE'' @ '':'') (vc_title c)). \<exists>k w. match_line l = Some (k, w) \<and> toUpperCase k \<noteq> ''FN''"
      "\<forall>l\<in>set (push_if (''NOTE'' @ '':'') (vc_note c)). \<exists>k w. match_line l = Some (k, w) \<and> toUpperCase k \<noteq> ''FN''"
    using assms toUpperCase_keys
    by (intro push_if_other; simp add: plain_contact_def)+
  have rest: "\<forall>l\<in>set ?rest. \<exists>k w. match_line l = Some (k, w) \<and> toUpperCase k \<noteq> ''FN''"
    using nline eline p by (simp add: ball_Un)
  have "vc_full_name (foldl process_line no_contact (?head @ ?fn # ?rest)) =
        vc_full_name (process_line (foldl process_line no_contact ?head) ?fn)"
    using foldl_process_line_other [OF rest] by (simp only: foldl_append foldl_Cons)
  also have "\<dots> = Some (FN_value c)"
    by (simp only: fn) simp
  finally show ?thesis
    by (simp only: parseVCard_def tx ls)
qed

text \<open>
  Claim C5, as amended. For a contact none of whose fields holds a line break, the text
  that \<^verbatim>\<open>buildVCard\<close> serializes has exactly one line FN, its fourth line, and \<^verbatim>\<open>parseVCard\<close> reads
  the value of that line back as the full name. The value is never empty: it is the full
  name when that is supplied and not empty; otherwise the first and the last name joined
  by one space when both are supplied and not empty, the one of them that is when only
  one is, with no space added; and the literal "Unknown" when all three are empty or
  absent.
\<close>

theorem contact_fn_never_empty:
  assumes "plain_contact c"
  shows "filter (prefix ''FN:'') (split_lines (buildVCard c)) = [''FN:'' @ FN_value c] \<and>
         split_lines (buildVCard c) ! 3 = ''FN:'' @ FN_value c \<and>
         vc_full_name (parseVCard (buildVCard c)) = Some (FN_value c) \<and>
         FN_value c \<noteq> [] \<and>
         (truthy (vc_full_name c) \<longrightarrow> FN_value c = or_empty (vc_full_name c)) \<and>
         (\<not> truthy (vc_full_name c) \<and> truthy (vc_first_name c) \<and> truthy (vc_last_name c) \<longrightarrow>
            FN_value c = or_empty (vc_first_name c) @ '' '' @ or_empty (vc_last_name c)) \<and>
         (\<not> truthy (vc_full_name c) \<and> truthy (vc_first_name c) \<and> \<not> truthy (vc_last_name c) \<longrightarrow>
            FN_value c = or_empty (vc_first_name c)) \<and>
         (\<not> truthy (vc_full_name c) \<and> \<not> truthy (vc_first_name c) \<and> truthy (vc_last_name c) \<longrightarrow>
            FN_value c = or_empty (vc_last_name c)) \<and>
         (\<not> truthy (vc_full_name c) \<and> \<not> truthy (vc_first_name c) \<and> \<not> truthy (vc_last_name c) \<longrightarrow>
            FN_value c = ''Unknown'')"
proof (intro conjI impI)
  show "filter (prefix ''FN:'') (split_lines (buildVCard c)) = [''FN:'' @ FN_value c]"
    by (simp add: split_lines_buildVCard [OF assms] vcard_lines_def push_if_def)
  show "split_lines (buildVCard c) ! 3 = ''FN:'' @ FN_value c"
    by (simp add: split_lines_buildVCard [OF assms] vcard_lines_def)
  show "vc_full_name (parseVCard (buildVCard c)) = Some (FN_value c)"
    by (rule parseVCard_buildVCard_full_name [OF assms])
  show "FN_value c \<noteq> []" by (rule FN_value_not_empty)
qed (auto simp: FN_value_def Let_def truthy_def or_empty_def split: option.splits)

theorem contact_fn_never_empty_witness:
  "plain_contact (no_contact\<lparr>vc_uid := Some ''c2'', vc_first_name := Some ''Ann'', vc_last_name := Some ''Lee''\<rparr>) \<and>
   split_lines (buildVCard (no_contact\<lparr>vc_uid := Some ''c2'', vc_first_name := Some ''Ann'', vc_last_name := Some ''Lee''\<rparr>)) ! 3 =
     ''FN:Ann Lee'' \<and>
   vc_full_name (parseVCard (buildVCard
     (no_contact\<lparr>vc_uid := Some ''c2'', vc_first_name := Some ''Ann'', vc_last_name := Some ''Lee''\<rparr>))) =
     Some ''Ann Lee'' \<and>
   filter (prefix ''FN:'') (split_lines (buildVCard
     (no_contact\<lparr>vc_uid := Some ''c2'', vc_full_name := Some ''Dr Ann Lee'', vc_first_name := Some ''Ann''\<rparr>))) =
     [''FN:Dr Ann Lee''] \<and>
   filter (prefix ''FN:'') (split_lines (buildVCard
     (no_contact\<lparr>vc_uid := Some ''c2'', vc_full_name := Some [], vc_first_name := Some ''Ann''\<rparr>))) =
     [''FN:Ann''] \<and>
   filter (prefix ''FN:'') (split_lines (buildVCard (no_contact\<lparr>vc_last_name := Some ''Lee''\<rparr>))) =
     [''FN:Lee''] \<and>
   filter (prefix ''FN:'') (split_lines (buildVCard
     (no_contact\<lparr>vc_first_name := Some [], vc_email := Some ''x@example.org''\<rparr>))) = [''FN:Unknown''] \<and>
   split_lines (buildVCard no_contact) ! 3 = ''FN:Unknown''"
proof -
  have p: "plain_contact (no_contact\<lparr>vc_uid := Some ''c2'', vc_first_name := Some ''Ann'', vc_last_name := Some ''Lee''\<rparr>)"
      "plain_contact (no_contact\<lparr>vc_uid := Some ''c2'', vc_full_name := Some ''Dr Ann Lee'', vc_first_name := Some ''Ann''\<rparr>)"
      "plain_contact (no_contact\<lparr>vc_uid := Some ''c2'', vc_full_name := Some [], vc_first_name := Some ''Ann''\<rparr>)"
      "plain_contact (no_contact\<lparr>vc_last_name := Some ''Lee''\<rparr>)"
      "plain_contact (no_contact\<lparr>vc_first_name := Some [], vc_email := Some ''x@example.org''\<rparr>)"
      "plain_contact no_contact"
    by code_simp+
  have v: "FN_value (no_contact\<lparr>vc_uid := Some ''c2'', vc_first_name := Some ''Ann'', vc_last_name := Some ''Lee''\<rparr>) = ''Ann Lee''"
      "FN_value (no_contact\<lparr>vc_uid := Some ''c2'', vc_full_name := Some ''Dr Ann Lee'', vc_first_name := Some ''Ann''\<rparr>) = ''Dr Ann Lee''"
      "FN_value (no_contact\<lparr>vc_uid := Some ''c2'', vc_full_name := Some [], vc_first_name := Some ''Ann''\<rparr>) = ''Ann''"
      "FN_value (no_contact\<lparr>vc_last_name := Some ''Lee''\<rparr>) = ''Lee''"
      "FN_value (no_contact\<lparr>vc_first_name := Some [], vc_email := Some ''x@example.org''\<rparr>) = ''Unknown''"
      "FN_value no_contact = ''Unknown''"
    by code_simp+
  from contact_fn_never_empty [OF p(1)] contact_fn_never_empty [OF p(2)]
    contact_fn_never_empty [OF p(3)] contact_fn_never_empty [OF p(4)]
    contact_fn_never_empty [OF p(5)] contact_fn_never_empty [OF p(6)] p(1)
  show ?thesis
    by (simp only: v) simp
qed

text \<open>
  The claim as stated fails when exactly one of the two names is supplied: with the first
  name "Ann" alone the line is \<^verbatim>\<open>FN:Ann\<close>, which is not the first name, a space and the last name.
  It fails as well when a field holds a line break, since \<^verbatim>\<open>buildVCard\<close> writes the fields as
  they are: a full name that begins with a line break leaves the line \<^verbatim>\<open>FN:\<close> with an empty
  value, and a note that holds a line break and \<^verbatim>\<open>FN:\<close> adds a second, empty FN line; both
  cards are read back with the empty full name.
\<close>

theorem contact_fn_counterexample:
  "FN_value (no_contact\<lparr>vc_first_name := Some ''Ann''\<rparr>) = ''Ann'' \<and>
   FN_value (no_contact\<lparr>vc_first_name := Some ''Ann''\<rparr>) \<noteq>
     or_empty (vc_first_name (no_contact\<lparr>vc_first_name := Some ''Ann''\<rparr>)) @ '' '' @
     or_empty (vc_last_name (no_contact\<lparr>vc_first_name := Some ''Ann''\<rparr>)) \<and>
   buildVCard (no_contact\<lparr>vc_uid := Some ''c2'', vc_first_name := Some ''Ann''\<rparr>) =
     join [CR, LF] [''BEGIN:VCARD'', ''VERSION:3.0'', ''UID:c2'', ''FN:Ann'', ''N:;Ann;;;'', ''END:VCARD''] \<and>
   split_lines (buildVCard broken_name_contact) =
     [''BEGIN:VCARD'', ''VERSION:3.0'', ''UID:c3'', ''FN:'', ''Ann Lee'', ''N:;;;;'', ''END:VCARD''] \<and>
   vc_full_name (parseVCard (buildVCard broken_name_contact)) = Some [] \<and>
   split_lines (buildVCard broken_note_contact) =
     [''BEGIN:VCARD'', ''VERSION:3.0'', ''UID:c4'', ''FN:Ann Lee'', ''N:;;;;'', ''NOTE:call back'',
      ''FN:'', ''END:VCARD''] \<and>
   vc_full_name (parseVCard (buildVCard broken_note_contact)) = Some []"
  by code_simp

section \<open>Encoding and decoding an event\<close>

text \<open>The token of an instant names the instant in whole seconds.\<close>

lemma is_digit_other:
  "is_digit c \<Longrightarrow> c \<noteq> CHR ''-'' \<and> c \<noteq> CHR '':'' \<and> c \<noteq> CHR ''.''"
  by (auto simp: is_digit_def)

lemma whole_seconds_div:
  fixes t k :: int
  assumes "0 < k"
  shows "(t - t mod 1000) div (1000 * k) = t div (1000 * k)"
proof -
  have "t - t mod 1000 = 1000 * (t div 1000)"
    by (simp add: minus_mod_eq_mult_div)
  then have "(t - t mod 1000) div (1000 * k) = (1000 * (t div 1000)) div 1000 div k"
    using assms by (simp add: zdiv_zmult2_eq)
  also have "\<dots> = t div 1000 div k" by simp
  also have "\<dots> = t div (1000 * k)"
    using assms by (simp add: zdiv_zmult2_eq)
  finally show ?thesis .
qed

lemma whole_seconds_parts:
  fixes t :: int
  shows "(t - t mod 1000) div 86400000 = t div 86400000"
    and "(t - t mod 1000) mod 86400000 = t mod 86400000 - t mod 86400000 mod 1000"
    and "(t - t mod 1000) div 3600000 = t div 3600000"
    and "(t - t mod 1000) div 60000 = t div 60000"
    and "(t - t mod 1000) div 1000 = t div 1000"
    and "(t - t mod 1000) mod 1000 = 0"
proof -
  show a: "(t - t mod 1000) div 86400000 = t div 86400000"
    using whole_seconds_div [of 86400 t] by simp
  have m: "t mod 86400000 mod 1000 = t mod 1000"
    by (rule mod_mod_cancel) simp
  have "(t - t mod 1000) mod 86400000 = (t - t mod 1000) - 86400000 * ((t - t mod 1000) div 86400000)"
    by (simp add: minus_mult_div_eq_mod)
  also have "\<dots> = (t - 86400000 * (t div 86400000)) - t mod 1000"
    by (simp only: a)
  also have "\<dots> = t mod 86400000 - t mod 1000"
    by (simp add: minus_mult_div_eq_mod)
  finally show "(t - t mod 1000) mod 86400000 = t mod 86400000 - t mod 86400000 mod 1000"
    by (simp only: m)
  show "(t - t mod 1000) div 3600000 = t div 3600000"
    using whole_seconds_div [of 3600 t] by simp
  show "(t - t mod 1000) div 60000 = t div 60000"
    using whole_seconds_div [of 60 t] by simp
  show "(t - t mod 1000) div 1000 = t div 1000"
    using whole_seconds_div [of 1 t] by simp
  show "(t - t mod 1000) mod 1000 = 0"
    by (simp add: minus_mod_eq_mult_div)
qed

lemma whole_seconds_time:
  fixes t :: int
  shows "(t - t mod 1000) mod 86400000 div 3600000 = t mod 86400000 div 3600000"
    and "(t - t mod 1000) mod 86400000 div 60000 mod 60 = t mod 86400000 div 60000 mod 60"
    and "(t - t mod 1000) mod 86400000 div 1000 mod 60 = t mod 86400000 div 1000 mod 60"
    and "(t - t mod 1000) mod 86400000 mod 1000 = 0"
  by (simp_all only: whole_seconds_parts(2) whole_seconds_parts(3-6) [of "t mod 86400000"])

lemma filter_digits:
  "list_all is_digit x \<Longrightarrow> filter (\<lambda>c. c \<noteq> CHR ''-'' \<and> c \<noteq> CHR '':'') x = x"
  by (induction x) (auto dest: is_digit_other)

lemma strip_millis_prefix:
  "CHR ''.'' \<notin> set x \<Longrightarrow> strip_millis (x @ rest) = x @ strip_millis rest"
  by (induction x) auto

lemma strip_millis_point:
  "list_all is_digit q \<Longrightarrow> length q = 3 \<Longrightarrow> strip_millis (CHR ''.'' # q @ rest) = rest"
  by simp

lemma digits_no_point: "list_all is_digit x \<Longrightarrow> CHR ''.'' \<notin> set x"
  by (auto simp: list_all_iff dest: is_digit_other)

lemma stamp_of_iso:
  assumes "list_all is_digit M" "list_all is_digit D" "list_all is_digit h" "list_all is_digit m"
    "list_all is_digit s" "list_all is_digit q" "length q = 3"
    and "CHR ''.'' \<notin> set Y"
  shows "strip_millis (filter (\<lambda>c. c \<noteq> CHR ''-'' \<and> c \<noteq> CHR '':'')
           (Y @ ''-'' @ M @ ''-'' @ D @ ''T'' @ h @ '':'' @ m @ '':'' @ s @ ''.'' @ q @ ''Z'')) =
         filter (\<lambda>c. c \<noteq> CHR ''-'' \<and> c \<noteq> CHR '':'') Y @ M @ D @ ''T'' @ h @ m @ s @ ''Z''"
proof -
  let ?f = "\<lambda>c. c \<noteq> CHR ''-'' \<and> c \<noteq> CHR '':''"
  let ?P = "filter ?f Y @ M @ D @ ''T'' @ h @ m @ s"
  have a: "filter ?f (Y @ ''-'' @ M @ ''-'' @ D @ ''T'' @ h @ '':'' @ m @ '':'' @ s @ ''.'' @ q @ ''Z'') =
        ?P @ CHR ''.'' # q @ ''Z''"
    using assms(1-6) by (simp add: filter_digits)
  have b: "CHR ''.'' \<notin> set ?P"
    using assms by (simp add: digits_no_point)
  have "strip_millis (?P @ CHR ''.'' # q @ ''Z'') = ?P @ strip_millis (CHR ''.'' # q @ ''Z'')"
    by (rule strip_millis_prefix [OF b])
  also have "\<dots> = ?P @ ''Z''"
    by (simp only: strip_millis_point [OF assms(6,7)])
  finally show ?thesis
    by (simp only: a) simp
qed

lemma pads_digits:
  "list_all is_digit (pad2 n)" "list_all is_digit (pad3 n)" "list_all is_digit (pad4 n)"
  "list_all is_digit (pad6 n)"
  "length (pad2 n) = 2" "length (pad3 n) = 3" "length (pad4 n) = 4" "length (pad6 n) = 6"
  by (simp_all add: pad2_def pad3_def pad4_def pad6_def is_digit_digit_char)

lemma iso_of_stamp:
  assumes "length M = 2" "length D = 2" "length h = 2" "length m = 2" "length s = 2"
  shows "token_to_iso (Y @ M @ D @ ''T'' @ h @ m @ s @ ''Z'') =
         (if length Y = 6 then ''-'' @ Y else Y) @ ''-'' @ M @ ''-'' @ D @ ''T'' @ h @ '':'' @ m @
         '':'' @ s @ ''.000Z''"
  using assms by (simp add: token_to_iso_def Let_def)

lemma pad3_zero: "pad3 0 = ''000''"
  by (simp add: pad3_def digit_char_def)

lemma toISOString_token: "toISOString (t - t mod 1000) = token_to_iso (ical_stamp t)"
proof -
  obtain y m d where c: "civil_from_days (t div 86400000) = (y, m, d)"
    by (cases "civil_from_days (t div 86400000)")
  let ?f = "\<lambda>c. c \<noteq> CHR ''-'' \<and> c \<noteq> CHR '':''"
  let ?Y = "if 0 \<le> y \<and> y \<le> 9999 then pad4 y else (if y < 0 then ''-'' else ''+'') @ pad6 (abs y)"
  let ?h = "pad2 (t mod 86400000 div 3600000)"
  let ?m = "pad2 (t mod 86400000 div 60000 mod 60)"
  let ?s = "pad2 (t mod 86400000 div 1000 mod 60)"
  have iso: "toISOString t = ?Y @ ''-'' @ pad2 m @ ''-'' @ pad2 d @ ''T'' @ ?h @ '':'' @ ?m @ '':'' @
      ?s @ ''.'' @ pad3 (t mod 86400000 mod 1000) @ ''Z''"
    by (simp only: toISOString_def Let_def c prod.case)
  have iso': "toISOString (t - t mod 1000) = ?Y @ ''-'' @ pad2 m @ ''-'' @ pad2 d @ ''T'' @ ?h @ '':'' @
      ?m @ '':'' @ ?s @ ''.'' @ pad3 0 @ ''Z''"
    by (simp only: toISOString_def Let_def whole_seconds_parts(1) whole_seconds_time c prod.case)
  have Y: "CHR ''.'' \<notin> set ?Y"
    using digits_no_point [of "pad4 y"] digits_no_point [of "pad6 (abs y)"]
    by (simp add: pads_digits)
  have st: "ical_stamp t = filter ?f ?Y @ pad2 m @ pad2 d @ ''T'' @ ?h @ ?m @ ?s @ ''Z''"
    unfolding ical_stamp_def iso by (rule stamp_of_iso) (simp_all add: Y pads_digits)
  have fy: "(if length (filter ?f ?Y) = 6 then ''-'' @ filter ?f ?Y else filter ?f ?Y) = ?Y"
    by (simp add: filter_digits pads_digits)
  have "token_to_iso (ical_stamp t) =
      (if length (filter ?f ?Y) = 6 then ''-'' @ filter ?f ?Y else filter ?f ?Y) @ ''-'' @ pad2 m @
      ''-'' @ pad2 d @ ''T'' @ ?h @ '':'' @ ?m @ '':'' @ ?s @ ''.000Z''"
    unfolding st by (rule iso_of_stamp) (simp_all add: pads_digits)
  then show ?thesis
    by (simp only: fy iso' pad3_zero) simp
qed

text \<open>The lines of a timed event with plain fields are the lines of its text.\<close>

lemma vevent_lines_timed_shape:
  assumes "ev_allDay r \<noteq> Some True" and "vevent_lines dp clock r = Inr ls"
  shows "\<exists>s en. isoToIcal dp (ev_dtstart r) = Inr s \<and>
           (if truthy (ev_dtend r) then \<exists>e. isoToIcal dp (ev_dtend r) = Inr e \<and> en = [''DTEND:'' @ e]
            else en = []) \<and>
           ls = timed_lines clock r s en"
  using assms
  by (auto simp: vevent_lines_def timed_lines_def timed_body_def Let_def split: sum.splits if_splits)

lemma isoToIcal_no_line_break: "isoToIcal dp v = Inr s \<Longrightarrow> no_line_break s"
  by (auto simp: isoToIcal_Inr no_line_break_ical_stamp)

lemma plain_value_cases:
  assumes "plain_value v"
  obtains "v = None" | s where "v = Some (Str s)" and "plain_text s"
  using assms by (auto simp: plain_value_def split: option.splits text_value.splits)

lemma plain_text_no_line_break: "plain_text s \<Longrightarrow> no_line_break s"
  by (simp add: plain_text_def no_line_break_def)

lemma push_value_no_line_break:
  assumes "plain_value v" and "no_line_break k"
  shows "\<forall>l\<in>set (push_value k v). no_line_break l"
  using assms(1)
proof (cases rule: plain_value_cases)
  case 1
  then show ?thesis by (simp add: push_value_def truthy_value_def)
next
  case (2 s)
  with assms(2) plain_text_no_line_break [of s] show ?thesis
    by (simp add: push_value_def truthy_value_def template_value_def)
qed

lemma timed_lines_no_line_break:
  assumes "plain_event r" and "no_line_break s" and "\<forall>l\<in>set en. no_line_break l"
  shows "\<forall>l\<in>set (timed_lines clock r s en). no_line_break l"
proof -
  from assms(1) have "plain_value (ev_uid r)" "ev_uid r \<noteq> None"
    by (simp_all add: plain_event_def)
  then have u: "no_line_break (template_value (ev_uid r))"
    by (cases rule: plain_value_cases) (simp_all add: template_value_def plain_text_no_line_break)
  from assms(1) have pv: "plain_value (ev_summary r)" "plain_value (ev_description r)"
      "plain_value (ev_location r)"
    by (simp_all add: plain_event_def)
  have k: "no_line_break ''SUMMARY:''" "no_line_break ''DESCRIPTION:''" "no_line_break ''LOCATION:''"
    by simp_all
  note p = push_value_no_line_break [OF pv(1) k(1)] push_value_no_line_break [OF pv(2) k(2)]
    push_value_no_line_break [OF pv(3) k(3)]
  from u p assms(2,3) no_line_break_ical_stamp [of clock] show ?thesis
    by (auto simp: timed_lines_def timed_body_def)
qed

lemma buildVEvent_timed_lines:
  assumes "plain_event r" and "ev_allDay r \<noteq> Some True" and "buildVEvent dp clock r = Inr text"
  shows "\<exists>s en. isoToIcal dp (ev_dtstart r) = Inr s \<and>
           (if truthy (ev_dtend r) then \<exists>e. isoToIcal dp (ev_dtend r) = Inr e \<and> en = [''DTEND:'' @ e]
            else en = []) \<and>
           split_lines text = timed_lines clock r s en"
proof -
  from assms(3) obtain ls where ls: "vevent_lines dp clock r = Inr ls" and t: "text = join [CR, LF] ls"
    by (auto simp: buildVEvent_def split: sum.splits)
  from vevent_lines_timed_shape [OF assms(2) ls] obtain s en where
    s: "isoToIcal dp (ev_dtstart r) = Inr s"
    and en: "if truthy (ev_dtend r) then \<exists>e. isoToIcal dp (ev_dtend r) = Inr e \<and> en = [''DTEND:'' @ e]
             else en = []"
    and shape: "ls = timed_lines clock r s en"
    by blast
  have "\<forall>l\<in>set en. no_line_break l"
    using en isoToIcal_no_line_break by (auto split: if_splits)
  then have "\<forall>l\<in>set ls. no_line_break l"
    unfolding shape using assms(1) isoToIcal_no_line_break [OF s] by (rule timed_lines_no_line_break [rotated 2])
  moreover have "ls \<noteq> []" by (simp add: shape timed_lines_def)
  ultimately have "split_lines text = ls"
    unfolding t by (rule split_lines_join [rotated])
  with s en shape show ?thesis by blast
qed

text \<open>No line begins with a space or a tab, and the lines of the event are those between
  its first and its last line.\<close>

lemma unfold_ical_plain: "\<forall>l\<in>set ls. \<not> is_continuation l \<Longrightarrow> unfold_ical ls = ls"
  by (induction ls rule: unfold_ical.induct) auto

lemma timed_lines_not_continuation:
  assumes "en = [] \<or> (\<exists>e. en = [''DTEND:'' @ e])"
  shows "\<forall>l\<in>set (timed_lines clock r s en). \<not> is_continuation l"
  using assms by (auto simp: timed_lines_def timed_body_def push_value_def is_continuation_def)

lemma event_lines_timed_lines:
  assumes "en = [] \<or> (\<exists>e. en = [''DTEND:'' @ e])"
  shows "event_lines (timed_lines clock r s en) = timed_body clock r s en"
proof -
  have "\<forall>l\<in>set (timed_body clock r s en). l \<noteq> ''END:VEVENT''"
    using assms by (auto simp: timed_body_def push_value_def)
  then have "takeWhile (\<lambda>l. l \<noteq> ''END:VEVENT'') (timed_body clock r s en @ [''END:VEVENT'', ''END:VCALENDAR'']) =
        timed_body clock r s en"
    by (simp add: takeWhile_append2)
  then show ?thesis
    by (simp add: event_lines_def timed_lines_def)
qed

text \<open>The lines of each name.\<close>

lemma line_name_key:
  assumes "CHR '':'' \<notin> set key" and "CHR '';'' \<notin> set key"
  shows "line_name (key @ CHR '':'' # v) = key"
  unfolding line_name_def using assms
  by (intro takeWhile_tail [THEN trans]) (auto simp: takeWhile_eq_all_conv)

lemma line_name_simps:
  "line_name (''UID:'' @ v) = ''UID''" "line_name (''DTSTAMP:'' @ v) = ''DTSTAMP''"
  "line_name (''DTSTART:'' @ v) = ''DTSTART''" "line_name (''DTEND:'' @ v) = ''DTEND''"
  "line_name (''SUMMARY:'' @ v) = ''SUMMARY''" "line_name (''DESCRIPTION:'' @ v) = ''DESCRIPTION''"
  "line_name (''LOCATION:'' @ v) = ''LOCATION''"
  using line_name_key [of "''UID''" v] line_name_key [of "''DTSTAMP''" v]
    line_name_key [of "''DTSTART''" v] line_name_key [of "''DTEND''" v]
    line_name_key [of "''SUMMARY''" v] line_name_key [of "''DESCRIPTION''" v]
    line_name_key [of "''LOCATION''" v]
  by simp_all

lemma named_Nil: "named key [] = []"
  by (simp add: named_def)

lemma named_Cons: "named key (l # ls) = (if line_name l = key then l # named key ls else named key ls)"
  by (simp add: named_def)

lemma named_append: "named key (a @ b) = named key a @ named key b"
  by (simp add: named_def)

lemma named_push_value:
  "named key (push_value k v) = (if line_name (k @ template_value v) = key then push_value k v else [])"
  by (simp add: named_def push_value_def)

lemma line_name_Cons:
  "line_name (c # l) = (if c \<noteq> CHR '':'' \<and> c \<noteq> CHR '';'' then c # line_name l else [])"
  by (simp add: line_name_def)

lemma named_timed_body:
  assumes "en = [] \<or> (\<exists>e. en = [''DTEND:'' @ e])"
  shows "named ''UID'' (timed_body clock r s en) = [''UID:'' @ template_value (ev_uid r)]"
    and "named ''DTSTART'' (timed_body clock r s en) = [''DTSTART:'' @ s]"
    and "named ''DTEND'' (timed_body clock r s en) = en"
    and "named ''SUMMARY'' (timed_body clock r s en) = push_value ''SUMMARY:'' (ev_summary r)"
    and "named ''DESCRIPTION'' (timed_body clock r s en) = push_value ''DESCRIPTION:'' (ev_description r)"
    and "named ''LOCATION'' (timed_body clock r s en) = push_value ''LOCATION:'' (ev_location r)"
    and "named ''STATUS'' (timed_body clock r s en) = []"
    and "named ''COMPLETED'' (timed_body clock r s en) = []"
    and "named ''DUE'' (timed_body clock r s en) = []"
proof -
  have en: "named key en = (if ''DTEND'' = key then en else [])" for key
  proof (cases "en = []")
    case True
    then show ?thesis by (simp add: named_Nil)
  next
    case False
    with assms obtain e where "en = [''DTEND:'' @ e]" by auto
    then show ?thesis by (simp only: named_Cons named_Nil line_name_simps(4))
  qed
  show "named ''UID'' (timed_body clock r s en) = [''UID:'' @ template_value (ev_uid r)]"
    by (simp add: timed_body_def named_append named_Cons named_Nil named_push_value line_name_Cons en)
  show "named ''DTSTART'' (timed_body clock r s en) = [''DTSTART:'' @ s]"
    by (simp add: timed_body_def named_append named_Cons named_Nil named_push_value line_name_Cons en)
  show "named ''DTEND'' (timed_body clock r s en) = en"
    by (simp add: timed_body_def named_append named_Cons named_Nil named_push_value line_name_Cons en)
  show "named ''SUMMARY'' (timed_body clock r s en) = push_value ''SUMMARY:'' (ev_summary r)"
    by (simp add: timed_body_def named_append named_Cons named_Nil named_push_value line_name_Cons en)
  show "named ''DESCRIPTION'' (timed_body clock r s en) = push_value ''DESCRIPTION:'' (ev_description r)"
    by (simp add: timed_body_def named_append named_Cons named_Nil named_push_value line_name_Cons en)
  show "named ''LOCATION'' (timed_body clock r s en) = push_value ''LOCATION:'' (ev_location r)"
    by (simp add: timed_body_def named_append named_Cons named_Nil named_push_value line_name_Cons en)
  show "named ''STATUS'' (timed_body clock r s en) = []"
    by (simp add: timed_body_def named_append named_Cons named_Nil named_push_value line_name_Cons en)
  show "named ''COMPLETED'' (timed_body clock r s en) = []"
    by (simp add: timed_body_def named_append named_Cons named_Nil named_push_value line_name_Cons en)
  show "named ''DUE'' (timed_body clock r s en) = []"
    by (simp add: timed_body_def named_append named_Cons named_Nil named_push_value line_name_Cons en)
qed

text \<open>What the component holds when it reads these lines.\<close>

lemma take_drop_key:
  "take (length key + 1) (key @ c # x) = key @ [c]" "drop (length key + 1) (key @ c # x) = x"
  by (induction key) simp_all

lemma reads_text_push_value:
  assumes "plain_value v" and "named key ls = push_value (key @ '':'') v"
    and "reads_text key ls w" and "BSL \<notin> set key"
  shows "text_or_blank w = text_or_blank v"
  using assms(1)
proof (cases rule: plain_value_cases)
  case 1
  with assms(2,3) show ?thesis
    by (simp add: reads_text_def push_value_def truthy_value_def)
next
  case (2 x)
  show ?thesis
  proof (cases "x = []")
    case True
    with 2 assms(2,3) show ?thesis
      by (simp add: reads_text_def push_value_def truthy_value_def text_or_blank_def)
  next
    case False
    with 2 assms(2) have "named key ls = [key @ '':'' @ x]"
      by (simp add: push_value_def truthy_value_def template_value_def)
    with assms(3,4) 2 show ?thesis
      by (simp add: reads_text_def plain_text_def take_drop_key)
  qed
qed

lemma reads_text_uid:
  assumes "plain_value v" and "v \<noteq> None" and "named ''UID'' ls = [''UID:'' @ template_value v]"
    and "reads_text ''UID'' ls w"
  shows "w = v"
  using assms(1)
proof (cases rule: plain_value_cases)
  case 1
  with assms(2) show ?thesis by simp
next
  case (2 x)
  with assms(3,4) take_drop_key [of "''UID''" "CHR '':''" x] show ?thesis
    by (simp add: reads_text_def template_value_def plain_text_def)
qed

lemma reads_date_line_stamp:
  assumes "reads_date_line key (key @ '':'' @ ical_stamp t) d"
  shows "icalDateToIso d = Inr (Some (toISOString (t - t mod 1000)))"
  using assms
  by (auto simp: reads_date_line_def take_drop_key icalDateToIso_def toISOString_token
      split: parsed_date.splits option.splits)

lemma timed_lines_no_end:
  "list_all (\<lambda>l. \<not> prefix ''DTEND'' l) (timed_lines clock r s [])"
  by (simp add: timed_lines_def timed_body_def push_value_def)

lemma Date_new_truthy:
  assumes "truthy v" and "isoToIcal dp v = Inr tok"
  shows "\<exists>e u. v = Some e \<and> e \<noteq> [] \<and> dp e = Some u \<and> tok = ical_stamp u"
  using assms by (auto simp: truthy_def isoToIcal_Inr Date_new_def split: option.splits)

text \<open>
  The assumption on the parser tells components apart: it holds of the component that
  node-ical reports for the text of the timed event, and of none that differs from it in
  the summary, the start or the end.
\<close>

lemma reads_calendar_timed_text:
  "reads_calendar timed_text [(''u2'', timed_component)] \<and>
   \<not> reads_calendar timed_text [(''u2'', timed_component\<lparr>comp_summary := Some (Str ''Stand-up'')\<rparr>)] \<and>
   \<not> reads_calendar timed_text [(''u2'', timed_component\<lparr>comp_location := None\<rparr>)] \<and>
   \<not> reads_calendar timed_text [(''u2'', timed_component\<lparr>comp_start := DateObj (Some 1772355600500)\<rparr>)] \<and>
   \<not> reads_calendar timed_text [(''u2'', timed_component\<lparr>comp_end := Absent\<rparr>)] \<and>
   \<not> reads_calendar timed_text []"
  by code_simp

text \<open>
  Claim C1, as amended. Let an event record have \<open>allDay\<close> not true, a uid that is a string,
  and a summary, description and location that are strings or missing, none of these
  strings holding a line break or a backslash; let its start be a string that \<^verbatim>\<open>Date.parse\<close>
  reads as the instant \<open>t\<close>; let \<^verbatim>\<open>buildVEvent\<close> return the text; and let the parser read that
  text as described above. Then decoding the text for VEVENT returns exactly one record.
  Its uid is the record's; its summary, description and location are the record's, the
  empty string standing for a missing one; its start is the ISO string of \<open>t\<close> in whole
  seconds, and the text has the line DTSTART with the token of \<open>t\<close>. When the record has no
  end, the text has no DTEND line and the decoded end is the decoded start; when it has
  one, the text has the line DTEND with its token and the decoded end is its ISO string in
  whole seconds; the decoded end is never null. Status is the empty string, and completed
  and due are null.
\<close>

theorem event_roundtrip:
  fixes parseICS :: "string \<Rightarrow> error + (string \<times> 'p component) list"
  assumes ad: "ev_allDay r \<noteq> Some True" and pl: "plain_event r"
    and st: "ev_dtstart r = Some s" and dps: "dp s = Some t"
    and b: "buildVEvent dp clock r = Inr ics"
    and p: "parseICS ics = Inr entries" and rc: "reads_calendar ics entries"
  shows "\<exists>ob. parseIcalObjects parseICS ics ''VEVENT'' = Inr [ob] \<and>
           o_uid ob = ev_uid r \<and>
           o_summary ob = text_or_blank (ev_summary r) \<and>
           o_description ob = text_or_blank (ev_description r) \<and>
           o_location ob = text_or_blank (ev_location r) \<and>
           o_start ob = Some (toISOString (t - t mod 1000)) \<and>
           ''DTSTART:'' @ ical_stamp t \<in> set (split_lines ics) \<and>
           (\<not> truthy (ev_dtend r) \<longrightarrow>
              o_end ob = o_start ob \<and> list_all (\<lambda>l. \<not> prefix ''DTEND'' l) (split_lines ics)) \<and>
           (\<forall>e u. ev_dtend r = Some e \<and> e \<noteq> [] \<and> dp e = Some u \<longrightarrow>
              o_end ob = Some (toISOString (u - u mod 1000)) \<and>
              ''DTEND:'' @ ical_stamp u \<in> set (split_lines ics)) \<and>
           o_end ob \<noteq> None \<and>
           o_status ob = Str [] \<and> o_completed ob = None \<and> o_due ob = None"
proof -
  from buildVEvent_timed_lines [OF pl ad b] obtain tok en where
    tok: "isoToIcal dp (ev_dtstart r) = Inr tok"
    and en: "if truthy (ev_dtend r) then \<exists>e. isoToIcal dp (ev_dtend r) = Inr e \<and> en = [''DTEND:'' @ e]
             else en = []"
    and ls: "split_lines ics = timed_lines clock r tok en"
    by blast
  have tk: "tok = ical_stamp t"
    using tok st dps by (simp add: isoToIcal_Inr Date_new_def)
  have e1: "en = [] \<or> (\<exists>e. en = [''DTEND:'' @ e])"
    using en by (auto split: if_splits)
  let ?B = "timed_body clock r tok en"
  have body: "event_lines (unfold_ical (split_lines ics)) = ?B"
    by (simp only: ls unfold_ical_plain [OF timed_lines_not_continuation [OF e1]]
        event_lines_timed_lines [OF e1])
  from rc obtain c where
    fc: "filter (\<lambda>c. comp_type c = ''VEVENT'') (map snd entries) = [c]"
    and rv: "reads_vevent ?B c"
    unfolding reads_calendar_def body by (auto split: list.splits)
  note nm = named_timed_body [OF e1, of clock r tok]
  from pl have pv: "ev_uid r \<noteq> None" "plain_value (ev_uid r)" "plain_value (ev_summary r)"
      "plain_value (ev_description r)" "plain_value (ev_location r)"
    by (simp_all add: plain_event_def)
  from rv have uid: "comp_uid c = ev_uid r"
    using reads_text_uid [OF pv(2,1) nm(1)] by (simp add: reads_vevent_def)
  from rv have su: "text_or_blank (comp_summary c) = text_or_blank (ev_summary r)"
    using reads_text_push_value [of "ev_summary r" "''SUMMARY''" ?B "comp_summary c"] pv(3) nm(4)
    by (simp add: reads_vevent_def)
  from rv have de: "text_or_blank (comp_description c) = text_or_blank (ev_description r)"
    using reads_text_push_value [of "ev_description r" "''DESCRIPTION''" ?B "comp_description c"]
      pv(4) nm(5)
    by (simp add: reads_vevent_def)
  from rv have lo: "text_or_blank (comp_location c) = text_or_blank (ev_location r)"
    using reads_text_push_value [of "ev_location r" "''LOCATION''" ?B "comp_location c"] pv(5) nm(6)
    by (simp add: reads_vevent_def)
  from rv have sta: "comp_status c = None"
    by (simp add: reads_vevent_def reads_text_def nm(7))
  from rv have co: "comp_completed c = Absent" and du: "comp_due c = Absent"
    by (simp_all add: reads_vevent_def nm(8,9))
  from rv have "reads_date_line ''DTSTART'' (''DTSTART:'' @ tok) (comp_start c)"
    by (simp add: reads_vevent_def reads_start_def nm(2))
  then have "reads_date_line ''DTSTART'' (''DTSTART'' @ '':'' @ ical_stamp t) (comp_start c)"
    by (simp add: tk)
  from reads_date_line_stamp [OF this]
  have cs: "icalDateToIso (comp_start c) = Inr (Some (toISOString (t - t mod 1000)))" .
  have ce: "icalDateToIso (comp_end c) =
      Inr (if truthy (ev_dtend r)
           then (case ev_dtend r of None \<Rightarrow> None
                 | Some e \<Rightarrow> map_option (\<lambda>u. toISOString (u - u mod 1000)) (dp e))
           else Some (toISOString (t - t mod 1000)))"
    and ne: "truthy (ev_dtend r) \<longrightarrow> (\<exists>e u. ev_dtend r = Some e \<and> dp e = Some u)"
    and el: "\<forall>e u. ev_dtend r = Some e \<and> e \<noteq> [] \<and> dp e = Some u \<longrightarrow>
               ''DTEND:'' @ ical_stamp u \<in> set (split_lines ics)"
    and nl: "\<not> truthy (ev_dtend r) \<longrightarrow> list_all (\<lambda>l. \<not> prefix ''DTEND'' l) (split_lines ics)"
  proof -
    show "icalDateToIso (comp_end c) =
      Inr (if truthy (ev_dtend r)
           then (case ev_dtend r of None \<Rightarrow> None
                 | Some e \<Rightarrow> map_option (\<lambda>u. toISOString (u - u mod 1000)) (dp e))
           else Some (toISOString (t - t mod 1000)))"
    proof (cases "truthy (ev_dtend r)")
      case False
      with en nm(3) have "named ''DTEND'' ?B = []" by simp
      with rv have "comp_end c = comp_start c"
        by (simp add: reads_vevent_def reads_end_def)
      with cs False show ?thesis by simp
    next
      case True
      with en obtain tok' where t': "isoToIcal dp (ev_dtend r) = Inr tok'" and en': "en = [''DTEND:'' @ tok']"
        by auto
      from Date_new_truthy [OF True t'] obtain e u where
        eu: "ev_dtend r = Some e" "e \<noteq> []" "dp e = Some u" "tok' = ical_stamp u"
        by blast
      from nm(3) en' have "named ''DTEND'' ?B = [''DTEND:'' @ tok']" by simp
      with rv have "reads_date_line ''DTEND'' (''DTEND:'' @ tok') (comp_end c)"
        by (simp add: reads_vevent_def reads_end_def)
      then have "reads_date_line ''DTEND'' (''DTEND'' @ '':'' @ ical_stamp u) (comp_end c)"
        by (simp add: eu(4))
      from reads_date_line_stamp [OF this] True eu show ?thesis by simp
    qed
    show "truthy (ev_dtend r) \<longrightarrow> (\<exists>e u. ev_dtend r = Some e \<and> dp e = Some u)"
      using en Date_new_truthy [of "ev_dtend r" dp] by (auto split: if_splits)
    show "\<forall>e u. ev_dtend r = Some e \<and> e \<noteq> [] \<and> dp e = Some u \<longrightarrow>
               ''DTEND:'' @ ical_stamp u \<in> set (split_lines ics)"
    proof (intro allI impI)
      fix e u
      assume a: "ev_dtend r = Some e \<and> e \<noteq> [] \<and> dp e = Some u"
      then have "truthy (ev_dtend r)" by (simp add: truthy_def)
      with en obtain tok' where t': "isoToIcal dp (ev_dtend r) = Inr tok'" and en': "en = [''DTEND:'' @ tok']"
        by auto
      from t' a have "tok' = ical_stamp u" by (simp add: isoToIcal_Inr Date_new_def)
      with en' show "''DTEND:'' @ ical_stamp u \<in> set (split_lines ics)"
        by (simp add: ls timed_lines_def timed_body_def)
    qed
    show "\<not> truthy (ev_dtend r) \<longrightarrow> list_all (\<lambda>l. \<not> prefix ''DTEND'' l) (split_lines ics)"
      using en timed_lines_no_end [of clock r tok] by (auto simp: ls)
  qed
  define ob where "ob = \<lparr>o_uid = comp_uid c, o_summary = or_empty_value (comp_summary c),
     o_description = or_empty_value (comp_description c),
     o_start = Some (toISOString (t - t mod 1000)),
     o_end = (if truthy (ev_dtend r)
              then (case ev_dtend r of None \<Rightarrow> None
                    | Some e \<Rightarrow> map_option (\<lambda>u. toISOString (u - u mod 1000)) (dp e))
              else Some (toISOString (t - t mod 1000))),
     o_location = or_empty_value (comp_location c), o_status = or_empty_value (comp_status c),
     o_priority = comp_priority c, o_completed = None, o_due = None\<rparr>"
  have "icalDateToIso Absent = Inr None"
    by (simp add: icalDateToIso_def)
  then have tob: "to_object c = Inr ob"
    by (simp add: to_object_def cs ce co du ob_def)
  have "push_results ''VEVENT'' (map snd entries) = Inr [ob]"
    using push_results_iff [of "''VEVENT''" "map snd entries" "[ob]"] fc tob by simp
  then have dec: "parseIcalObjects parseICS ics ''VEVENT'' = Inr [ob]"
    by (simp add: parseIcalObjects_def p)
  have f1: "o_uid ob = ev_uid r" by (simp add: ob_def uid)
  have f2: "o_summary ob = text_or_blank (ev_summary r)"
    by (simp add: ob_def or_empty_value_blank su)
  have f3: "o_description ob = text_or_blank (ev_description r)"
    by (simp add: ob_def or_empty_value_blank de)
  have f4: "o_location ob = text_or_blank (ev_location r)"
    by (simp add: ob_def or_empty_value_blank lo)
  have f5: "o_start ob = Some (toISOString (t - t mod 1000))" by (simp add: ob_def)
  have f6: "''DTSTART:'' @ ical_stamp t \<in> set (split_lines ics)"
    by (simp add: ls timed_lines_def timed_body_def tk)
  have f7: "\<not> truthy (ev_dtend r) \<longrightarrow>
              o_end ob = o_start ob \<and> list_all (\<lambda>l. \<not> prefix ''DTEND'' l) (split_lines ics)"
    using nl by (simp add: ob_def)
  have f8: "\<forall>e u. ev_dtend r = Some e \<and> e \<noteq> [] \<and> dp e = Some u \<longrightarrow>
              o_end ob = Some (toISOString (u - u mod 1000)) \<and>
              ''DTEND:'' @ ical_stamp u \<in> set (split_lines ics)"
    using el by (auto simp: ob_def truthy_def)
  have f9: "o_end ob \<noteq> None"
    using ne by (auto simp: ob_def)
  have f10: "o_status ob = Str [] \<and> o_completed ob = None \<and> o_due ob = None"
    by (simp add: ob_def sta or_empty_value_def)
  from dec f1 f2 f3 f4 f5 f6 f7 f8 f9 f10 show ?thesis
    by (intro exI [of _ ob] conjI) (simp_all only: simp_thms)
qed

theorem event_roundtrip_witness:
  "plain_event timed_event \<and>
   buildVEvent Date_parse_known clock0 timed_event = Inr timed_text \<and>
   reads_calendar timed_text [(''u2'', timed_component)] \<and>
   (\<exists>ob. parseIcalObjects (reports [(''u2'', timed_component)]) timed_text ''VEVENT'' = Inr [ob] \<and>
      o_uid ob = Some (Str ''u2'') \<and> o_summary ob = Str ''Standup'' \<and> o_description ob = Str [] \<and>
      o_location ob = Str ''Room 1'' \<and> o_start ob = Some ''2026-03-01T09:00:00.000Z'' \<and>
      o_end ob = Some ''2026-03-01T09:00:00.000Z'' \<and> o_status ob = Str [] \<and>
      o_completed ob = None \<and> o_due ob = None) \<and>
   ''DTSTART:20260301T090000Z'' \<in> set (split_lines timed_text) \<and>
   plain_event ended_event \<and>
   buildVEvent Date_parse_known clock0 ended_event = Inr ended_text \<and>
   reads_calendar ended_text [(''u2'', ended_component)] \<and>
   (\<exists>ob. parseIcalObjects (reports [(''u2'', ended_component)]) ended_text ''VEVENT'' = Inr [ob] \<and>
      o_start ob = Some ''2026-03-01T09:00:00.000Z'' \<and>
      o_end ob = Some ''2026-03-01T10:30:00.000Z'') \<and>
   ''DTEND:20260301T103000Z'' \<in> set (split_lines ended_text)"
proof -
  have ad: "ev_allDay timed_event \<noteq> Some True" "ev_allDay ended_event \<noteq> Some True"
    by (simp_all add: timed_event_def ended_event_def)
  have pl: "plain_event timed_event" "plain_event ended_event"
    by code_simp+
  have st: "ev_dtstart timed_event = Some ''2026-03-01T09:00:00Z''"
    "ev_dtstart ended_event = Some ''2026-03-01T09:00:00Z''"
    by (simp_all add: timed_event_def ended_event_def)
  have dps: "Date_parse_known ''2026-03-01T09:00:00Z'' = Some 1772355600000"
    by code_simp
  have b: "buildVEvent Date_parse_known clock0 timed_event = Inr timed_text"
    "buildVEvent Date_parse_known clock0 ended_event = Inr ended_text"
    by code_simp+
  have p: "reports [(''u2'', timed_component)] timed_text = Inr [(''u2'', timed_component)]"
    "reports [(''u2'', ended_component)] ended_text = Inr [(''u2'', ended_component)]"
    by (simp_all add: reports_def)
  have rc: "reads_calendar timed_text [(''u2'', timed_component)]"
    "reads_calendar ended_text [(''u2'', ended_component)]"
    by code_simp+
  have v: "ev_uid timed_event = Some (Str ''u2'')"
    "text_or_blank (ev_summary timed_event) = Str ''Standup''"
    "text_or_blank (ev_description timed_event) = Str []"
    "text_or_blank (ev_location timed_event) = Str ''Room 1''"
    "toISOString (1772355600000 - 1772355600000 mod 1000) = ''2026-03-01T09:00:00.000Z''"
    "''DTSTART:'' @ ical_stamp 1772355600000 = ''DTSTART:20260301T090000Z''"
    "\<not> truthy (ev_dtend timed_event)"
    by code_simp+
  have w: "ev_dtend ended_event = Some ''2026-03-01T10:30:00Z'' \<and> ''2026-03-01T10:30:00Z'' \<noteq> [] \<and>
      Date_parse_known ''2026-03-01T10:30:00Z'' = Some 1772361000000"
    "toISOString (1772361000000 - 1772361000000 mod 1000) = ''2026-03-01T10:30:00.000Z''"
    "''DTEND:'' @ ical_stamp 1772361000000 = ''DTEND:20260301T103000Z''"
    by code_simp+
  note r1 = event_roundtrip
    [where r = timed_event and dp = Date_parse_known and clock = clock0 and ics = timed_text
       and parseICS = "reports [(''u2'', timed_component)]" and entries = "[(''u2'', timed_component)]"
       and s = "''2026-03-01T09:00:00Z''" and t = 1772355600000,
     OF ad(1) pl(1) st(1) dps b(1) p(1) rc(1), unfolded v(1-6)]
  from r1 obtain ob where
    d1: "parseIcalObjects (reports [(''u2'', timed_component)]) timed_text ''VEVENT'' = Inr [ob]"
    "o_uid ob = Some (Str ''u2'')" "o_summary ob = Str ''Standup''" "o_description ob = Str []"
    "o_location ob = Str ''Room 1''" "o_start ob = Some ''2026-03-01T09:00:00.000Z''"
    "''DTSTART:20260301T090000Z'' \<in> set (split_lines timed_text)"
    "o_status ob = Str []" "o_completed ob = None" "o_due ob = None"
    and e1: "\<not> truthy (ev_dtend timed_event) \<longrightarrow>
      o_end ob = o_start ob \<and> list_all (\<lambda>l. \<not> prefix ''DTEND'' l) (split_lines timed_text)"
    by blast
  from e1 v(7) d1(6) have "o_end ob = Some ''2026-03-01T09:00:00.000Z''"
    by simp
  with d1 have one: "(\<exists>ob. parseIcalObjects (reports [(''u2'', timed_component)]) timed_text ''VEVENT'' = Inr [ob] \<and>
      o_uid ob = Some (Str ''u2'') \<and> o_summary ob = Str ''Standup'' \<and> o_description ob = Str [] \<and>
      o_location ob = Str ''Room 1'' \<and> o_start ob = Some ''2026-03-01T09:00:00.000Z'' \<and>
      o_end ob = Some ''2026-03-01T09:00:00.000Z'' \<and> o_status ob = Str [] \<and>
      o_completed ob = None \<and> o_due ob = None) \<and>
     ''DTSTART:20260301T090000Z'' \<in> set (split_lines timed_text)"
    by blast
  note r2 = event_roundtrip
    [where r = ended_event and dp = Date_parse_known and clock = clock0 and ics = ended_text
       and parseICS = "reports [(''u2'', ended_component)]" and entries = "[(''u2'', ended_component)]"
       and s = "''2026-03-01T09:00:00Z''" and t = 1772355600000,
     OF ad(2) pl(2) st(2) dps b(2) p(2) rc(2), unfolded v(5)]
  from r2 obtain ob' where
    d: "parseIcalObjects (reports [(''u2'', ended_component)]) ended_text ''VEVENT'' = Inr [ob']"
    "o_start ob' = Some ''2026-03-01T09:00:00.000Z''"
    and e: "\<forall>e u. ev_dtend ended_event = Some e \<and> e \<noteq> [] \<and> Date_parse_known e = Some u \<longrightarrow>
              o_end ob' = Some (toISOString (u - u mod 1000)) \<and>
              ''DTEND:'' @ ical_stamp u \<in> set (split_lines ended_text)"
    by blast
  from e [rule_format, OF w(1)] have "o_end ob' = Some ''2026-03-01T10:30:00.000Z''"
    "''DTEND:20260301T103000Z'' \<in> set (split_lines ended_text)"
    unfolding w(2,3) by simp_all
  with d have two: "(\<exists>ob. parseIcalObjects (reports [(''u2'', ended_component)]) ended_text ''VEVENT'' = Inr [ob] \<and>
      o_start ob = Some ''2026-03-01T09:00:00.000Z'' \<and>
      o_end ob = Some ''2026-03-01T10:30:00.000Z'') \<and>
   ''DTEND:20260301T103000Z'' \<in> set (split_lines ended_text)"
    by blast
  from pl b rc one two show ?thesis by (simp only: simp_thms)
qed

text \<open>
  The claim as stated fails, in four ways. Two records that differ in description and
  location have one and the same text, because a line break in a description is written
  as it is: the text decodes to the description "Agenda" and the location "Room 2", which
  the record with the two-line description does not have. The half second of a start is
  not in the text, so that the decoded start is not the ISO-normalized start. The end of
  a record without end does not decode to null: node-ical gives an event without DTEND
  the end of its start. And a backslash before the letter n in a summary is read back as
  a line feed.
\<close>

theorem event_roundtrip_counterexample:
  "buildVEvent Date_parse_known clock0 two_line_event =
     buildVEvent Date_parse_known clock0 located_event \<and>
   buildVEvent Date_parse_known clock0 located_event =
     Inr (join [CR, LF]
       [''BEGIN:VCALENDAR'', ''VERSION:2.0'', ''PRODID:-//Radicale MCP//EN'', ''BEGIN:VEVENT'',
        ''UID:u3'', ''DTSTAMP:20260301T090000Z'', ''DTSTART:20260301T090000Z'', ''SUMMARY:Review'',
        ''DESCRIPTION:Agenda'', ''LOCATION:Room 2'', ''END:VEVENT'', ''END:VCALENDAR'']) \<and>
   ev_description two_line_event \<noteq> ev_description located_event \<and>
   ev_location two_line_event \<noteq> ev_location located_event \<and>
   (case buildVEvent Date_parse_known clock0 two_line_event of
      Inl e \<Rightarrow> False
    | Inr text \<Rightarrow>
        reads_calendar text [(''u3'', located_component)] \<and>
        (case parseIcalObjects (reports [(''u3'', located_component)]) text ''VEVENT'' of
           Inl e \<Rightarrow> False
         | Inr obs \<Rightarrow> map o_description obs = [Str ''Agenda''] \<and> map o_location obs = [Str ''Room 2''])) \<and>
   buildVEvent Date_parse_known clock0 timed_event_ms = Inr timed_text \<and>
   reads_calendar timed_text [(''u2'', timed_component)] \<and>
   parseIcalObjects (reports [(''u2'', timed_component)]) timed_text ''VEVENT'' = Inr [timed_record] \<and>
   map_option toISOString (Date_new Date_parse_known (ev_dtstart timed_event_ms)) =
     Some ''2026-03-01T09:00:00.500Z'' \<and>
   o_start timed_record = Some ''2026-03-01T09:00:00.000Z'' \<and>
   ev_dtend timed_event_ms = None \<and>
   o_end timed_record = Some ''2026-03-01T09:00:00.000Z'' \<and>
   buildVEvent Date_parse_known clock0 escaped_event = Inr escaped_text \<and>
   reads_calendar escaped_text [(''u4'', escaped_component)] \<and>
   ev_summary escaped_event = Some (Str (''Files in C:'' @ [BSL] @ ''new'')) \<and>
   (case parseIcalObjects (reports [(''u4'', escaped_component)]) escaped_text ''VEVENT'' of
      Inl e \<Rightarrow> False
    | Inr obs \<Rightarrow> map o_summary obs = [Str (''Files in C:'' @ [LF] @ ''ew'')])"
  by code_simp

end
